theory Spec2Isabelle
  imports Complex_Main
begin

section \<open>gdal\_convert: rescaling and converting rasters\<close>

text \<open>
  A shallow embedding of \<^verbatim>\<open>src/gdal_extras/gdal_convert.py\<close>. The script is glue code
  around two external collaborators, the file system (through \<^verbatim>\<open>pathlib\<close>) and the
  raster library GDAL. Both are taken as data: a dataset is a record of what the script
  reads from it, and the world the script runs in is a record of the answers the
  collaborators give. Exceptions are values of \<open>error\<close>; the calls that open a dataset
  or write one are recorded, in order, in an event list that every effectful function
  takes and returns.

  Pixel values are Python floats. The script never computes with them, it only moves
  them between lists, so they are modelled as \<open>real\<close>.
\<close>

subsection \<open>Python values\<close>

datatype error =
    AssertionError
  | AttributeError
  | IndexError
  | KeyError string string
  | TypeError
  | UnboundLocalError
  | ValueError

text \<open>
  \<open>KeyError d k\<close> is the failed subscript \<^verbatim>\<open>d[k]\<close>: the key, as Python reports it, and
  the name of the dictionary, as the traceback shows it. \<open>AttributeError\<close> is what a
  method call on \<^verbatim>\<open>None\<close> raises.
\<close>

text \<open>
  Truth value of an optional string and of an optional list: \<^verbatim>\<open>None\<close> and the empty
  sequence are false.
\<close>

definition truthy :: "'a list option \<Rightarrow> bool" where
  "truthy v = (case v of None \<Rightarrow> False | Some xs \<Rightarrow> xs \<noteq> [])"

text \<open>
  \<^verbatim>\<open>str.lower\<close> on ASCII letters. The script compares lowered strings with
  \<^verbatim>\<open>"native"\<close> and \<^verbatim>\<open>".xml"\<close> only, and no character outside ASCII lowers to one of
  their letters.
\<close>

definition lower_char :: "char \<Rightarrow> char" where
  "lower_char c =
     (case map_of (zip ''ABCDEFGHIJKLMNOPQRSTUVWXYZ'' ''abcdefghijklmnopqrstuvwxyz'') c of
        None \<Rightarrow> c
      | Some d \<Rightarrow> d)"

definition lower :: "string \<Rightarrow> string" where
  "lower s = map lower_char s"

text \<open>
  \<^verbatim>\<open>xs[i]\<close>: an index from \<open>- len\<close> up to \<open>len - 1\<close> is accepted, a negative one counts
  from the end, anything else raises.
\<close>

definition subscript :: "'a list \<Rightarrow> int \<Rightarrow> error + 'a" where
  "subscript xs i =
     (if 0 \<le> i \<and> i < int (length xs) then Inr (xs ! nat i)
      else if i < 0 \<and> - int (length xs) \<le> i then Inr (xs ! nat (int (length xs) + i))
      else Inl IndexError)"

text \<open>A list comprehension whose element expression may raise: the first error ends it.\<close>

fun comprehension :: "('a \<Rightarrow> error + 'b) \<Rightarrow> 'a list \<Rightarrow> error + 'b list" where
  "comprehension f [] = Inr []"
| "comprehension f (x # xs) =
     (case f x of
        Inl e \<Rightarrow> Inl e
      | Inr y \<Rightarrow> (case comprehension f xs of Inl e \<Rightarrow> Inl e | Inr ys \<Rightarrow> Inr (y # ys)))"

subsection \<open>The raster library's data\<close>

datatype GDALDataType =
    GDT_Unknown | GDT_Byte | GDT_UInt16 | GDT_Int16 | GDT_UInt32 | GDT_Int32
  | GDT_Float32 | GDT_Float64 | GDT_CInt16 | GDT_CInt32 | GDT_CFloat32 | GDT_CFloat64

fun GetDataTypeName :: "GDALDataType \<Rightarrow> string" where
  "GetDataTypeName GDT_Unknown = ''Unknown''"
| "GetDataTypeName GDT_Byte = ''Byte''"
| "GetDataTypeName GDT_UInt16 = ''UInt16''"
| "GetDataTypeName GDT_Int16 = ''Int16''"
| "GetDataTypeName GDT_UInt32 = ''UInt32''"
| "GetDataTypeName GDT_Int32 = ''Int32''"
| "GetDataTypeName GDT_Float32 = ''Float32''"
| "GetDataTypeName GDT_Float64 = ''Float64''"
| "GetDataTypeName GDT_CInt16 = ''CInt16''"
| "GetDataTypeName GDT_CInt32 = ''CInt32''"
| "GetDataTypeName GDT_CFloat32 = ''CFloat32''"
| "GetDataTypeName GDT_CFloat64 = ''CFloat64''"

text \<open>
  A driver is its description and its metadata dictionary; the raster capability
  \<^verbatim>\<open>DCAP_RASTER\<close> and the extension \<^verbatim>\<open>DMD_EXTENSION\<close> are entries of the dictionary.
\<close>

record driver =
  Description :: string
  Metadata :: "(string \<times> string) list"

definition GetMetadataItem :: "driver \<Rightarrow> string \<Rightarrow> string option" where
  "GetMetadataItem drv key = map_of (Metadata drv) key"

text \<open>
  A band is what \<^verbatim>\<open>GetStatistics(True, True)\<close> answers for it, (min, max, mean, stddev),
  and its pixel type.
\<close>

record band =
  Statistics :: "real \<times> real \<times> real \<times> real"
  DataType :: GDALDataType

record dataset =
  RasterBands :: "band list"
  Driver :: driver

definition RasterCount :: "dataset \<Rightarrow> nat" where
  "RasterCount ds = length (RasterBands ds)"

text \<open>\<^verbatim>\<open>ds.GetRasterBand(n)\<close>, bands counted from 1; \<^verbatim>\<open>None\<close> for any other number.\<close>

definition GetRasterBand :: "dataset \<Rightarrow> nat \<Rightarrow> band option" where
  "GetRasterBand ds n =
     (if 1 \<le> n \<and> n \<le> RasterCount ds then Some (RasterBands ds ! (n - 1)) else None)"

definition band_min :: "band \<Rightarrow> real" where
  "band_min b = fst (Statistics b)"

definition band_max :: "band \<Rightarrow> real" where
  "band_max b = fst (snd (Statistics b))"

text \<open>The keyword arguments of \<^verbatim>\<open>gdal.TranslateOptions\<close>, kept as they are passed.\<close>

record TranslateOptions =
  opt_format :: string
  opt_outputType :: GDALDataType
  opt_bandList :: "int list"
  opt_scaleParams :: "real list list"

subsection \<open>The two tables\<close>

definition BITRANGE :: "string \<rightharpoonup> real list" where
  "BITRANGE = map_of
     [(''Byte'', [0, 255]),
      (''UInt8'', [0, 255]),
      (''UInt16'', [0, 65535]),
      (''UInt32'', [0, 4294967295]),
      (''Int16'', [- 32768, 32767]),
      (''Int32'', [- 2147483648, 2147483647]),
      (''Float32'', [0, 1]),
      (''Float64'', [0, 1])]"

definition TYPE_DICT :: "string \<rightharpoonup> GDALDataType" where
  "TYPE_DICT = map_of
     [(''Byte'', GDT_Byte),
      (''UInt8'', GDT_Byte),
      (''UInt16'', GDT_UInt16),
      (''UInt32'', GDT_UInt32),
      (''Int16'', GDT_Int16),
      (''Int32'', GDT_Int32),
      (''Float32'', GDT_Float32),
      (''Float64'', GDT_Float64)]"

text \<open>The eight names both tables are keyed by.\<close>

definition type_names :: "string list" where
  "type_names =
     [''Byte'', ''UInt8'', ''UInt16'', ''UInt32'', ''Int16'', ''Int32'', ''Float32'', ''Float64'']"

subsection \<open>Scale parameters and translate options\<close>

text \<open>
  \<^verbatim>\<open>getScaleParams\<close>. The statistics of all bands are transposed with
  \<^verbatim>\<open>zip(*stats)\<close> and unpacked into four names; with no band the transposition is empty
  and the unpacking raises \<^verbatim>\<open>ValueError\<close>.
\<close>

definition getScaleParams :: "dataset \<Rightarrow> real list \<Rightarrow> error + real list list" where
  "getScaleParams ds outputRange =
     (let stats = map Statistics (RasterBands ds) in
      if stats = [] then Inl ValueError
      else
        let vmin = map fst stats;
            vmax = map (\<lambda>s. fst (snd s)) stats;
            scaleParams = zip vmin vmax;
            scaleParams = map (\<lambda>(lo, hi). [lo, hi]) scaleParams
        in Inr (map (\<lambda>s. s @ outputRange) scaleParams))"

text \<open>
  \<^verbatim>\<open>setupOptions\<close>. The band numbers index the scale list as \<^verbatim>\<open>scaleParams[i - 1]\<close>,
  with Python's rules for subscripts; the type code is looked up last, when the
  arguments of \<^verbatim>\<open>gdal.TranslateOptions\<close> are evaluated.
\<close>

definition setupOptions ::
  "dataset \<Rightarrow> string \<Rightarrow> string \<Rightarrow> real list \<Rightarrow> int list option \<Rightarrow> error + TranslateOptions"
where
  "setupOptions ds outputFormat outputType outputRange bands =
     (case getScaleParams ds outputRange of
        Inl e \<Rightarrow> Inl e
      | Inr scaleParams \<Rightarrow>
          let bands = (if \<not> truthy bands then map int [1 ..< RasterCount ds + 1] else the bands) in
          (case comprehension (\<lambda>i. subscript scaleParams (i - 1)) bands of
             Inl e \<Rightarrow> Inl e
           | Inr scaleParams \<Rightarrow>
               (case TYPE_DICT outputType of
                  None \<Rightarrow> Inl (KeyError ''TYPE_DICT'' outputType)
                | Some t \<Rightarrow>
                    Inr \<lparr>opt_format = outputFormat, opt_outputType = t,
                         opt_bandList = bands, opt_scaleParams = scaleParams\<rparr>)))"

subsection \<open>Paths\<close>

text \<open>
  A \<^verbatim>\<open>pathlib\<close> path on a POSIX system: whether it starts at the root, and its
  components. Parsing a string drops empty components and \<^verbatim>\<open>.\<close> components, so the
  empty string is the current directory. (Two leading slashes, which \<^verbatim>\<open>pathlib\<close>
  keeps apart from one, are read as one.)
\<close>

record path =
  absolute :: bool
  components :: "string list"

text \<open>\<^verbatim>\<open>s.split(c)\<close> for a one-character separator: never empty, one more piece than separators.\<close>

fun split_on :: "char \<Rightarrow> string \<Rightarrow> string list" where
  "split_on c [] = [[]]"
| "split_on c (x # xs) =
     (if x = c then [] # split_on c xs
      else (case split_on c xs of [] \<Rightarrow> [[x]] | w # ws \<Rightarrow> (x # w) # ws))"

definition Path :: "string \<Rightarrow> path" where
  "Path s =
     \<lparr>absolute = (case s of [] \<Rightarrow> False | c # _ \<Rightarrow> c = CHR ''/''),
      components = filter (\<lambda>c. c \<noteq> [] \<and> c \<noteq> ''.'') (split_on CHR ''/'' s)\<rparr>"

text \<open>\<^verbatim>\<open>p / q\<close>: an absolute right operand replaces the left one.\<close>

definition joinpath :: "path \<Rightarrow> path \<Rightarrow> path" where
  "joinpath p q =
     (if absolute q then q
      else \<lparr>absolute = absolute p, components = components p @ components q\<rparr>)"

definition parent :: "path \<Rightarrow> path" where
  "parent p = \<lparr>absolute = absolute p, components = butlast (components p)\<rparr>"

definition name :: "path \<Rightarrow> string" where
  "name p = (if components p = [] then [] else last (components p))"

text \<open>\<^verbatim>\<open>s.rfind(c)\<close>: the position of the last occurrence, \<open>None\<close> for Python's \<open>-1\<close>.\<close>

fun rfind :: "char \<Rightarrow> string \<Rightarrow> nat option" where
  "rfind c [] = None"
| "rfind c (x # xs) =
     (case rfind c xs of
        Some i \<Rightarrow> Some (Suc i)
      | None \<Rightarrow> if x = c then Some 0 else None)"

text \<open>
  The suffix starts at the last dot of the name, unless that dot is the first or the
  last character of the name; the stem is the rest.
\<close>

definition suffix :: "path \<Rightarrow> string" where
  "suffix p =
     (case rfind CHR ''.'' (name p) of
        None \<Rightarrow> []
      | Some i \<Rightarrow> if 0 < i \<and> i < length (name p) - 1 then drop i (name p) else [])"

definition stem :: "path \<Rightarrow> string" where
  "stem p =
     (case rfind CHR ''.'' (name p) of
        None \<Rightarrow> name p
      | Some i \<Rightarrow> if 0 < i \<and> i < length (name p) - 1 then take i (name p) else name p)"

fun join_slash :: "string list \<Rightarrow> string" where
  "join_slash [] = []"
| "join_slash [c] = c"
| "join_slash (c # d # cs) = c @ ''/'' @ join_slash (d # cs)"

definition str_path :: "path \<Rightarrow> string" where
  "str_path p =
     (if absolute p then ''/'' @ join_slash (components p)
      else if components p = [] then ''.''
      else join_slash (components p))"

subsection \<open>The world the script runs in\<close>

datatype ftype = Directory | RegularFile | Special

text \<open>
  What the collaborators answer: the kind of file a path names (\<open>None\<close> when nothing
  is there), the paths \<^verbatim>\<open>rglob("*")\<close> yields below a directory, in the order it yields
  them, the dataset \<^verbatim>\<open>gdal.Open\<close> returns for a file name (\<open>None\<close> when the library
  cannot read it) and the driver \<^verbatim>\<open>gdal.GetDriverByName\<close> returns for a format name.
  The answers do not change during a run: a translate call is recorded, and what it
  writes is not read back.
\<close>

record world =
  kind :: "path \<Rightarrow> ftype option"
  rglob :: "path \<Rightarrow> path list"
  Open :: "string \<Rightarrow> dataset option"
  GetDriverByName :: "string \<Rightarrow> driver option"

definition exists_path :: "world \<Rightarrow> path \<Rightarrow> bool" where
  "exists_path w p = (kind w p \<noteq> None)"

definition is_dir :: "world \<Rightarrow> path \<Rightarrow> bool" where
  "is_dir w p = (kind w p = Some Directory)"

definition is_file :: "world \<Rightarrow> path \<Rightarrow> bool" where
  "is_file w p = (kind w p = Some RegularFile)"

text \<open>
  The calls the claims speak about: \<open>Opened s\<close> for \<^verbatim>\<open>gdal.Open(s)\<close>, whatever it
  returns, and \<open>Translated dest ds options\<close> for \<^verbatim>\<open>gdal.Translate\<close>.
\<close>

datatype event =
    Opened string
  | Translated string dataset TranslateOptions

fun is_Translated :: "event \<Rightarrow> bool" where
  "is_Translated (Translated dest ds options) = True"
| "is_Translated (Opened s) = False"

fun is_Opened :: "event \<Rightarrow> bool" where
  "is_Opened (Opened s) = True"
| "is_Opened (Translated dest ds options) = False"

subsection \<open>Resolving the extension and the pixel type\<close>

definition get_dtype :: "world \<Rightarrow> path \<Rightarrow> event list \<Rightarrow> (error + string) \<times> event list" where
  "get_dtype w input evs =
     (let evs = evs @ [Opened (str_path input)] in
      case Open w (str_path input) of
        None \<Rightarrow> (Inl AttributeError, evs)
      | Some ds \<Rightarrow>
          (case GetRasterBand ds 1 of
             None \<Rightarrow> (Inl AttributeError, evs)
           | Some b \<Rightarrow> (Inr (GetDataTypeName (DataType b)), evs)))"

text \<open>
  \<^verbatim>\<open>get_extension\<close>. The local \<^verbatim>\<open>ext\<close> is assigned only under
  \<^verbatim>\<open>if drv.GetMetadataItem(gdal.DCAP_RASTER)\<close>, and read right after it: \<open>bound\<close> below
  is \<open>None\<close> when the assignment was skipped, and reading it then raises
  \<^verbatim>\<open>UnboundLocalError\<close>.
\<close>

definition get_extension :: "world \<Rightarrow> path \<Rightarrow> string \<Rightarrow> event list \<Rightarrow> (error + string) \<times> event list"
where
  "get_extension w input format evs =
     (let (drv, evs) =
            (if lower format \<noteq> ''native'' then (Inr (GetDriverByName w format), evs)
             else
               ((case Open w (str_path input) of
                   None \<Rightarrow> Inl AttributeError
                 | Some ds \<Rightarrow> Inr (Some (Driver ds))),
                evs @ [Opened (str_path input)]))
      in
      case drv of
        Inl e \<Rightarrow> (Inl e, evs)
      | Inr None \<Rightarrow> (Inl AssertionError, evs)
      | Inr (Some drv) \<Rightarrow>
          (let bound =
                 (if truthy (GetMetadataItem drv ''DCAP_RASTER'')
                  then Some (if format = ''COG'' then Some ''tif''
                             else map_of (Metadata drv) ''DMD_EXTENSION'')
                  else None)
           in
           case bound of
             None \<Rightarrow> (Inl UnboundLocalError, evs)
           | Some ext \<Rightarrow>
               if \<not> truthy ext then (Inl AssertionError, evs) else (Inr (the ext), evs)))"

subsection \<open>Resolving the files\<close>

text \<open>The loop over \<^verbatim>\<open>inpath.rglob("*")\<close>, with the two lists it appends to.\<close>

fun parse_files_loop ::
  "world \<Rightarrow> path \<Rightarrow> string \<Rightarrow> path list \<Rightarrow> path list \<Rightarrow> path list \<Rightarrow> event list
     \<Rightarrow> (error + path list \<times> path list) \<times> event list"
where
  "parse_files_loop w outpath format [] files outpaths evs = (Inr (files, outpaths), evs)"
| "parse_files_loop w outpath format (f # rest) files outpaths evs =
     (if lower (suffix f) = ''.xml'' \<or> is_dir w f
      then parse_files_loop w outpath format rest files outpaths evs
      else
        (case get_extension w f format evs of
           (Inl e, evs) \<Rightarrow> (Inl e, evs)
         | (Inr ext, evs) \<Rightarrow>
             parse_files_loop w outpath format rest (files @ [f])
               (outpaths @ [joinpath outpath (Path (stem f @ ''_converted.'' @ ext))]) evs))"

text \<open>
  \<^verbatim>\<open>parse_files\<close>. The arguments come from \<^verbatim>\<open>argparse\<close>, which gives \<^verbatim>\<open>None\<close> for
  an option that was left out; \<^verbatim>\<open>Path(None)\<close> raises \<^verbatim>\<open>TypeError\<close>. A path that
  exists and is neither a directory nor a regular file leaves \<^verbatim>\<open>files\<close> unassigned.
\<close>

definition parse_files ::
  "world \<Rightarrow> string option \<Rightarrow> string option \<Rightarrow> string \<Rightarrow> event list
     \<Rightarrow> (error + path list \<times> path list) \<times> event list"
where
  "parse_files w input output format evs =
     (case input of
        None \<Rightarrow> (Inl TypeError, evs)
      | Some inp \<Rightarrow>
          if \<not> (exists_path w (Path inp) \<and> inp \<noteq> []) then (Inl AssertionError, evs)
          else
            let inpath = Path inp;
                outpath = (if \<not> truthy output then None else Some (Path (the output)))
            in
            if is_dir w inpath then
              (case output of
                 None \<Rightarrow> (Inl TypeError, evs)
               | Some out \<Rightarrow>
                   let outpath = Path out in
                   if \<not> is_dir w outpath then (Inl AssertionError, evs)
                   else parse_files_loop w outpath format (rglob w inpath) [] [] evs)
            else if is_file w inpath then
              (case get_extension w inpath format evs of
                 (Inl e, evs) \<Rightarrow> (Inl e, evs)
               | (Inr ext, evs) \<Rightarrow>
                   let outpaths =
                         (case outpath of
                            None \<Rightarrow> [joinpath (parent inpath) (Path (''converted.'' @ ext))]
                          | Some p \<Rightarrow> [p])
                   in
                   if lower (suffix inpath) = ''.xml'' then (Inl AssertionError, evs)
                   else (Inr ([inpath], outpaths), evs))
            else (Inl UnboundLocalError, evs))"

subsection \<open>The entry point\<close>

text \<open>
  \<^verbatim>\<open>int(s)\<close> on ASCII input: blanks around the literal are dropped, one sign is
  allowed, and single underscores may separate digits.
\<close>

definition is_space :: "char \<Rightarrow> bool" where
  "is_space c = (c \<in> set [CHR '' '', CHR 0x09, CHR 0x0A, CHR 0x0B, CHR 0x0C, CHR 0x0D,
                            CHR 0x1C, CHR 0x1D, CHR 0x1E, CHR 0x1F])"

definition strip :: "string \<Rightarrow> string" where
  "strip s = rev (dropWhile is_space (rev (dropWhile is_space s)))"

definition digit_val :: "char \<Rightarrow> nat option" where
  "digit_val c = map_of (zip ''0123456789'' [0, 1, 2, 3, 4, 5, 6, 7, 8, 9]) c"

fun digits :: "nat \<Rightarrow> string \<Rightarrow> nat option" where
  "digits acc [] = Some acc"
| "digits acc [c] = (case digit_val c of None \<Rightarrow> None | Some v \<Rightarrow> Some (10 * acc + v))"
| "digits acc (c # d # cs) =
     (if c = CHR ''_'' then (case digit_val d of None \<Rightarrow> None | Some v \<Rightarrow> digits acc (d # cs))
      else (case digit_val c of None \<Rightarrow> None | Some v \<Rightarrow> digits (10 * acc + v) (d # cs)))"

definition int_of_str :: "string \<Rightarrow> error + int" where
  "int_of_str s =
     (let t = strip s;
          (negative, body) =
            (case t of
               [] \<Rightarrow> (False, [])
             | c # cs \<Rightarrow>
                 if c = CHR ''-'' then (True, cs)
                 else if c = CHR ''+'' then (False, cs)
                 else (False, t))
      in
      case body of
        [] \<Rightarrow> Inl ValueError
      | c # _ \<Rightarrow>
          (case digit_val c of
             None \<Rightarrow> Inl ValueError
           | Some _ \<Rightarrow>
               (case digits 0 body of
                  None \<Rightarrow> Inl ValueError
                | Some n \<Rightarrow> Inr (if negative then - int n else int n))))"

text \<open>The attributes of the \<^verbatim>\<open>argparse\<close> namespace; \<^verbatim>\<open>None\<close> for an option left out.\<close>

record Namespace =
  arg_input :: "string option"
  arg_bands :: "string option"
  arg_output :: "string option"
  arg_format :: string
  arg_dtype :: string
  arg_range :: "real list option"

text \<open>
  One pass through the loop of \<^verbatim>\<open>main\<close>. The namespace is returned because the pass
  assigns to \<^verbatim>\<open>args.format\<close> and \<^verbatim>\<open>args.dtype\<close>, and the next pass reads them.
  When \<^verbatim>\<open>gdal.Open\<close> returned \<^verbatim>\<open>None\<close>, the first method call on \<^verbatim>\<open>ds\<close> raises: that
  is \<^verbatim>\<open>ds.GetDriver()\<close> for a native format, and otherwise \<^verbatim>\<open>ds.RasterCount\<close> in
  \<^verbatim>\<open>getScaleParams\<close>, after the output range has been looked up.
\<close>

definition main_body ::
  "world \<Rightarrow> int list option \<Rightarrow> Namespace \<Rightarrow> path \<times> path \<Rightarrow> event list
     \<Rightarrow> (error + Namespace) \<times> event list"
where
  "main_body w bands_out args job evs =
     (let (entry, out) = job;
          ds = Open w (str_path entry);
          evs = evs @ [Opened (str_path entry)]
      in
      case (if lower (arg_format args) = ''native''
            then (case ds of
                    None \<Rightarrow> Inl AttributeError
                  | Some d \<Rightarrow> Inr (args\<lparr>arg_format := Description (Driver d)\<rparr>))
            else Inr args) of
        Inl e \<Rightarrow> (Inl e, evs)
      | Inr args \<Rightarrow>
          (case (if lower (arg_dtype args) = ''native''
                 then (case get_dtype w entry evs of
                         (Inl e, evs) \<Rightarrow> (Inl e, evs)
                       | (Inr t, evs) \<Rightarrow> (Inr (args\<lparr>arg_dtype := t\<rparr>), evs))
                 else (Inr args, evs)) of
             (Inl e, evs) \<Rightarrow> (Inl e, evs)
           | (Inr args, evs) \<Rightarrow>
               (case (if truthy (arg_range args) then Inr (the (arg_range args))
                      else (case BITRANGE (arg_dtype args) of
                              None \<Rightarrow> Inl (KeyError ''BITRANGE'' (arg_dtype args))
                            | Some r \<Rightarrow> Inr r)) of
                  Inl e \<Rightarrow> (Inl e, evs)
                | Inr outputRange \<Rightarrow>
                    (case ds of
                       None \<Rightarrow> (Inl AttributeError, evs)
                     | Some d \<Rightarrow>
                         (case setupOptions d (arg_format args) (arg_dtype args)
                                 outputRange bands_out of
                            Inl e \<Rightarrow> (Inl e, evs)
                          | Inr options \<Rightarrow>
                              (Inr args, evs @ [Translated (str_path out) d options]))))))"

fun main_loop ::
  "world \<Rightarrow> int list option \<Rightarrow> Namespace \<Rightarrow> (path \<times> path) list \<Rightarrow> event list
     \<Rightarrow> (error + unit) \<times> event list"
where
  "main_loop w bands_out args [] evs = (Inr (), evs)"
| "main_loop w bands_out args (job # jobs) evs =
     (case main_body w bands_out args job evs of
        (Inl e, evs) \<Rightarrow> (Inl e, evs)
      | (Inr args, evs) \<Rightarrow> main_loop w bands_out args jobs evs)"

text \<open>\<^verbatim>\<open>main\<close>: the outcome of the run and the calls it made, oldest first.\<close>

definition main :: "world \<Rightarrow> Namespace \<Rightarrow> (error + unit) \<times> event list" where
  "main w args =
     (case parse_files w (arg_input args) (arg_output args) (arg_format args) [] of
        (Inl e, evs) \<Rightarrow> (Inl e, evs)
      | (Inr (files, outfiles), evs) \<Rightarrow>
          (case (if truthy (arg_bands args)
                 then (case comprehension int_of_str (split_on CHR '','' (the (arg_bands args))) of
                         Inl e \<Rightarrow> Inl e
                       | Inr bs \<Rightarrow> Inr (Some bs))
                 else Inr None) of
             Inl e \<Rightarrow> (Inl e, evs)
           | Inr bands_out \<Rightarrow> main_loop w bands_out args (zip files outfiles) evs))"

subsection \<open>Notions the statements use\<close>

text \<open>The element a subscript in range selects.\<close>

definition pick :: "'a list \<Rightarrow> int \<Rightarrow> 'a" where
  "pick xs i = (if 0 \<le> i then xs ! nat i else xs ! nat (int (length xs) + i))"

text \<open>
  The driver an extension is taken from: the driver of the requested format, or the
  driver of the file itself when the format is native.
\<close>

definition resolved_driver :: "world \<Rightarrow> path \<Rightarrow> string \<Rightarrow> driver option" where
  "resolved_driver w p format =
     (if lower format \<noteq> ''native'' then GetDriverByName w format
      else map_option Driver (Open w (str_path p)))"

definition driver_extension :: "driver \<Rightarrow> string \<Rightarrow> string option" where
  "driver_extension drv format =
     (if format = ''COG'' then Some ''tif'' else map_of (Metadata drv) ''DMD_EXTENSION'')"

text \<open>
  \<open>resolves w p format ext\<close>: the resolved driver exists, supports rasters, and gives the
  non-empty extension \<open>ext\<close>.
\<close>

definition resolves :: "world \<Rightarrow> path \<Rightarrow> string \<Rightarrow> string \<Rightarrow> bool" where
  "resolves w p format ext =
     (case resolved_driver w p format of
        None \<Rightarrow> False
      | Some drv \<Rightarrow>
          truthy (GetMetadataItem drv ''DCAP_RASTER'') \<and>
          driver_extension drv format = Some ext \<and> ext \<noteq> [])"

text \<open>The paths a directory run keeps: not a directory, and not a sidecar file.\<close>

definition wanted :: "world \<Rightarrow> path \<Rightarrow> bool" where
  "wanted w f = (\<not> is_dir w f \<and> lower (suffix f) \<noteq> ''.xml'')"

text \<open>
  The translate calls of an event list: the destination, the driver description of the
  source dataset, and the format passed.
\<close>

fun translate_calls :: "event list \<Rightarrow> (string \<times> string \<times> string) list" where
  "translate_calls [] = []"
| "translate_calls (Opened s # evs) = translate_calls evs"
| "translate_calls (Translated dest ds options # evs) =
     (dest, Description (Driver ds), opt_format options) # translate_calls evs"

text \<open>The scale tuples of a translate call end in the given range.\<close>

fun scaled_to :: "real list \<Rightarrow> event \<Rightarrow> bool" where
  "scaled_to r (Opened s) = True"
| "scaled_to r (Translated dest ds options) =
     (\<forall>s \<in> set (opt_scaleParams options).
        \<exists>b \<in> set (RasterBands ds). s = [band_min b, band_max b] @ r)"

text \<open>The outcome of reading the band option in \<^verbatim>\<open>main\<close>.\<close>

definition bands_out_of :: "Namespace \<Rightarrow> error + int list option" where
  "bands_out_of args =
     (if truthy (arg_bands args)
      then (case comprehension int_of_str (split_on CHR '','' (the (arg_bands args))) of
              Inl e \<Rightarrow> Inl e
            | Inr bs \<Rightarrow> Inr (Some bs))
      else Inr None)"

subsection \<open>A sample world\<close>

text \<open>
  Concrete inputs for evaluating the functions above. Three drivers: two raster
  formats and a vector format that has an extension but no raster capability.
\<close>

definition GTiff :: driver where
  "GTiff = \<lparr>Description = ''GTiff'',
            Metadata = [(''DCAP_RASTER'', ''YES''), (''DMD_EXTENSION'', ''tif'')]\<rparr>"

definition PNG :: driver where
  "PNG = \<lparr>Description = ''PNG'',
          Metadata = [(''DCAP_RASTER'', ''YES''), (''DMD_EXTENSION'', ''png'')]\<rparr>"

definition Shapefile :: driver where
  "Shapefile = \<lparr>Description = ''ESRI Shapefile'',
                Metadata = [(''DCAP_VECTOR'', ''YES''), (''DMD_EXTENSION'', ''shp'')]\<rparr>"

text \<open>A one-band GeoTIFF with pixel values from 10 to 200, a five-band one, and a PNG.\<close>

definition scene :: dataset where
  "scene = \<lparr>RasterBands = [\<lparr>Statistics = (10, 200, 90, 30), DataType = GDT_UInt16\<rparr>],
            Driver = GTiff\<rparr>"

definition five_bands :: dataset where
  "five_bands =
     \<lparr>RasterBands =
        [\<lparr>Statistics = (1, 11, 5, 2), DataType = GDT_UInt16\<rparr>,
         \<lparr>Statistics = (2, 12, 6, 2), DataType = GDT_UInt16\<rparr>,
         \<lparr>Statistics = (3, 13, 7, 2), DataType = GDT_UInt16\<rparr>,
         \<lparr>Statistics = (4, 14, 8, 2), DataType = GDT_UInt16\<rparr>,
         \<lparr>Statistics = (5, 15, 9, 2), DataType = GDT_UInt16\<rparr>],
      Driver = GTiff\<rparr>"

definition photo :: dataset where
  "photo = \<lparr>RasterBands = [\<lparr>Statistics = (0, 250, 100, 40), DataType = GDT_Byte\<rparr>],
            Driver = PNG\<rparr>"

definition rel :: "string list \<Rightarrow> path" where
  "rel cs = \<lparr>absolute = False, components = cs\<rparr>"

text \<open>
  A directory \<^verbatim>\<open>in\<close> with a GeoTIFF, its sidecar file, and a subdirectory holding a PNG;
  an output directory \<^verbatim>\<open>out\<close>; a directory \<^verbatim>\<open>empty\<close> with nothing in it.
\<close>

definition sample :: world where
  "sample =
     \<lparr>kind = map_of
        [(rel [''in''], Directory),
         (rel [''in'', ''a.tif''], RegularFile),
         (rel [''in'', ''a.tif.aux.xml''], RegularFile),
         (rel [''in'', ''sub''], Directory),
         (rel [''in'', ''sub'', ''b.png''], RegularFile),
         (rel [''out''], Directory),
         (rel [''empty''], Directory)],
      rglob = (\<lambda>p.
         if p = rel [''in'']
         then [rel [''in'', ''a.tif''], rel [''in'', ''a.tif.aux.xml''], rel [''in'', ''sub''],
               rel [''in'', ''sub'', ''b.png'']]
         else if p = rel [''in'', ''sub''] then [rel [''in'', ''sub'', ''b.png'']]
         else []),
      Open = map_of [(''in/a.tif'', scene), (''in/sub/b.png'', photo)],
      GetDriverByName =
        map_of [(''GTiff'', GTiff), (''PNG'', PNG), (''ESRI Shapefile'', Shapefile)]\<rparr>"

definition sample_args :: Namespace where
  "sample_args =
     \<lparr>arg_input = Some ''in'', arg_bands = None, arg_output = Some ''out'',
      arg_format = ''Native'', arg_dtype = ''Native'', arg_range = None\<rparr>"

section \<open>Properties\<close>

subsection \<open>Scale parameters\<close>

lemma getScaleParams_eq:
  "RasterBands ds \<noteq> [] \<Longrightarrow>
   getScaleParams ds outputRange =
     Inr (map (\<lambda>b. [band_min b, band_max b] @ outputRange) (RasterBands ds))"
  by (simp add: getScaleParams_def Let_def band_min_def band_max_def zip_map_map
        zip_same_conv_map)

lemma getScaleParams_empty:
  "RasterBands ds = [] \<Longrightarrow> getScaleParams ds outputRange = Inl ValueError"
  by (simp add: getScaleParams_def)

lemma comprehension_Inr:
  "(\<And>x. x \<in> set xs \<Longrightarrow> f x = Inr (g x)) \<Longrightarrow> comprehension f xs = Inr (map g xs)"
  by (induction xs) auto

lemma comprehension_members:
  "comprehension f xs = Inr ys \<Longrightarrow> y \<in> set ys \<Longrightarrow> \<exists>x \<in> set xs. f x = Inr y"
  by (induction xs arbitrary: ys) (auto split: sum.splits)

lemma subscript_pick:
  "- int (length xs) \<le> i \<Longrightarrow> i < int (length xs) \<Longrightarrow> subscript xs i = Inr (pick xs i)"
  by (auto simp: subscript_def pick_def)

lemma subscript_member: "subscript xs i = Inr y \<Longrightarrow> y \<in> set xs"
  by (auto simp: subscript_def split: if_splits)

text \<open>
  Option setup for a non-empty band list whose numbers Python accepts as subscripts
  of the scale list: nothing raises, and each number selects its own tuple.
\<close>

lemma setupOptions_selected:
  assumes "bs \<noteq> []" and "TYPE_DICT outputType = Some t"
    and "\<And>b. b \<in> set bs \<Longrightarrow> - int (RasterCount ds) < b \<and> b \<le> int (RasterCount ds)"
  shows "setupOptions ds outputFormat outputType outputRange (Some bs) =
     Inr \<lparr>opt_format = outputFormat, opt_outputType = t, opt_bandList = bs,
          opt_scaleParams =
            map (\<lambda>b. [band_min (pick (RasterBands ds) (b - 1)),
                       band_max (pick (RasterBands ds) (b - 1))] @ outputRange) bs\<rparr>"
proof -
  from assms(1,3) obtain b where
    "b \<in> set bs" "- int (RasterCount ds) < b \<and> b \<le> int (RasterCount ds)"
    by (cases bs) auto
  then have ne: "RasterBands ds \<noteq> []" by (auto simp: RasterCount_def)
  define tup where "tup = (\<lambda>b. [band_min b, band_max b] @ outputRange)"
  define sp where "sp = map tup (RasterBands ds)"
  have gsp: "getScaleParams ds outputRange = Inr sp"
    unfolding sp_def tup_def by (rule getScaleParams_eq[OF ne])
  have sel: "comprehension (\<lambda>i. subscript sp (i - 1)) bs = Inr (map (\<lambda>i. pick sp (i - 1)) bs)"
  proof (rule comprehension_Inr)
    fix i assume "i \<in> set bs"
    from assms(3)[OF this] show "subscript sp (i - 1) = Inr (pick sp (i - 1))"
      by (intro subscript_pick) (simp_all add: RasterCount_def sp_def)
  qed
  have pk: "pick sp (i - 1) = tup (pick (RasterBands ds) (i - 1))" if "i \<in> set bs" for i
    using assms(3)[OF that] by (auto simp: pick_def RasterCount_def sp_def)
  have "map (\<lambda>i. pick sp (i - 1)) bs = map (\<lambda>i. tup (pick (RasterBands ds) (i - 1))) bs"
    by (rule map_cong) (simp_all add: pk)
  with sel have sel': "comprehension (\<lambda>i. subscript sp (i - 1)) bs =
      Inr (map (\<lambda>i. tup (pick (RasterBands ds) (i - 1))) bs)" by simp
  show ?thesis
    using assms(1,2) by (simp add: setupOptions_def gsp sel' truthy_def) (simp add: tup_def)
qed

text \<open>Whatever the band list, every tuple that option setup passes on is some band's tuple.\<close>

lemma setupOptions_tuples:
  assumes "setupOptions ds outputFormat outputType outputRange bands = Inr options"
    and "s \<in> set (opt_scaleParams options)"
  shows "\<exists>b \<in> set (RasterBands ds). s = [band_min b, band_max b] @ outputRange"
proof -
  from assms(1) have ne: "RasterBands ds \<noteq> []"
    by (auto simp: setupOptions_def getScaleParams_empty)
  define sp where "sp = map (\<lambda>b. [band_min b, band_max b] @ outputRange) (RasterBands ds)"
  have gsp: "getScaleParams ds outputRange = Inr sp"
    unfolding sp_def by (rule getScaleParams_eq[OF ne])
  from assms(1) obtain bl where
    c: "comprehension (\<lambda>i. subscript sp (i - 1)) bl = Inr (opt_scaleParams options)"
    by (auto simp: setupOptions_def gsp Let_def split: sum.splits option.splits)
  from comprehension_members[OF c assms(2)] obtain i where "subscript sp (i - 1) = Inr s"
    by blast
  then have "s \<in> set sp" by (rule subscript_member)
  then show ?thesis by (auto simp: sp_def)
qed

text \<open>
  Claim C3. For every dataset and every band of it, \<^verbatim>\<open>getScaleParams\<close> called with the
  target range \<open>[lo, hi]\<close> returns one tuple per band, and the tuple at the band's
  position is (the band's observed minimum, the band's observed maximum, \<open>lo\<close>, \<open>hi\<close>).
  With the range the table gives for \<^verbatim>\<open>"Byte"\<close>, the tuple ends in 0 and 255. (A dataset
  without bands has no band to speak about; there the unpacking raises.)
\<close>

theorem getScaleParams_per_band:
  assumes "i < RasterCount ds"
  shows "(\<exists>sp. getScaleParams ds [lo, hi] = Inr sp \<and> length sp = RasterCount ds \<and>
            sp ! i = [band_min (RasterBands ds ! i), band_max (RasterBands ds ! i), lo, hi]) \<and>
         (\<exists>sp. getScaleParams ds (the (BITRANGE ''Byte'')) = Inr sp \<and>
            sp ! i = [band_min (RasterBands ds ! i), band_max (RasterBands ds ! i), 0, 255])"
proof -
  from assms have ne: "RasterBands ds \<noteq> []" by (auto simp: RasterCount_def)
  have byte: "the (BITRANGE ''Byte'') = [0, 255]" by (simp add: BITRANGE_def)
  from assms show ?thesis
    by (simp add: getScaleParams_eq[OF ne] byte RasterCount_def)
qed

text \<open>The band with observed range 10 to 200: (10, 200, 0, 255) for \<^verbatim>\<open>"Byte"\<close>.\<close>

theorem getScaleParams_per_band_witness:
  "0 < RasterCount scene \<and>
   getScaleParams scene (the (BITRANGE ''Byte'')) = Inr [[10, 200, 0, 255]] \<and>
   getScaleParams scene [0, 1000] = Inr [[10, 200, 0, 1000]]"
proof -
  have h: "0 < RasterCount scene" by (simp add: RasterCount_def scene_def)
  have b: "band_min (RasterBands scene ! 0) = 10" "band_max (RasterBands scene ! 0) = 200"
    by (simp_all add: scene_def band_min_def band_max_def)
  have c: "RasterCount scene = 1" by (simp add: RasterCount_def scene_def)
  from getScaleParams_per_band[OF h, of 0 1000] obtain sp sp' where
    sp: "getScaleParams scene [0, 1000] = Inr sp" "length sp = 1" "sp ! 0 = [10, 200, 0, 1000]"
    and sp': "getScaleParams scene (the (BITRANGE ''Byte'')) = Inr sp'"
      "sp' ! 0 = [10, 200, 0, 255]"
    by (auto simp: b c)
  from sp'(1) have "length sp' = 1"
    by (auto simp: getScaleParams_def scene_def)
  with sp'(2) have "sp' = [[10, 200, 0, 255]]" by (cases sp') auto
  moreover from sp(2,3) have "sp = [[10, 200, 0, 1000]]" by (cases sp) auto
  ultimately show ?thesis using h sp(1) sp'(1) by simp
qed

text \<open>
  Claim C2. For every dataset and every requested band list whose numbers lie between
  1 and \<^verbatim>\<open>RasterCount\<close>, option setup returns options whose band list is the requested
  list and whose scale list has, at each position, the tuple of the band requested at
  that position. (A request is a non-empty list: \<^verbatim>\<open>setupOptions\<close> reads an empty one
  as no request. The type name is one the type table knows, so that the options exist.)
\<close>

theorem setupOptions_band_subset:
  assumes "bs \<noteq> []" and "\<forall>b \<in> set bs. 1 \<le> b \<and> b \<le> int (RasterCount ds)"
    and "TYPE_DICT outputType = Some t"
  shows "setupOptions ds outputFormat outputType outputRange (Some bs) =
     Inr \<lparr>opt_format = outputFormat, opt_outputType = t, opt_bandList = bs,
          opt_scaleParams =
            map (\<lambda>b. [band_min (RasterBands ds ! nat (b - 1)),
                       band_max (RasterBands ds ! nat (b - 1))] @ outputRange) bs\<rparr>"
proof -
  have "map (\<lambda>b. [band_min (pick (RasterBands ds) (b - 1)),
                       band_max (pick (RasterBands ds) (b - 1))] @ outputRange) bs =
        map (\<lambda>b. [band_min (RasterBands ds ! nat (b - 1)),
                       band_max (RasterBands ds ! nat (b - 1))] @ outputRange) bs"
    by (rule map_cong) (use assms(2) in \<open>auto simp: pick_def\<close>)
  moreover have "setupOptions ds outputFormat outputType outputRange (Some bs) =
     Inr \<lparr>opt_format = outputFormat, opt_outputType = t, opt_bandList = bs,
          opt_scaleParams =
            map (\<lambda>b. [band_min (pick (RasterBands ds) (b - 1)),
                       band_max (pick (RasterBands ds) (b - 1))] @ outputRange) bs\<rparr>"
    by (rule setupOptions_selected) (use assms in auto)
  ultimately show ?thesis by simp
qed

text \<open>Bands \<^verbatim>\<open>"3,1"\<close> of a five-band dataset: the tuples of band 3 and band 1, in that order.\<close>

theorem setupOptions_band_subset_witness:
  "comprehension int_of_str (split_on CHR '','' ''3,1'') = Inr [3, 1] \<and>
   RasterCount five_bands = 5 \<and>
   TYPE_DICT ''Byte'' = Some GDT_Byte \<and>
   setupOptions five_bands ''GTiff'' ''Byte'' [0, 255] (Some [3, 1]) =
     Inr \<lparr>opt_format = ''GTiff'', opt_outputType = GDT_Byte, opt_bandList = [3, 1],
          opt_scaleParams = [[3, 13, 0, 255], [1, 11, 0, 255]]\<rparr>"
proof -
  have c: "RasterCount five_bands = 5" by (simp add: RasterCount_def five_bands_def)
  have p: "comprehension int_of_str (split_on CHR '','' ''3,1'') = Inr [3, 1]"
    by (simp add: int_of_str_def strip_def is_space_def digit_val_def)
  have t: "TYPE_DICT ''Byte'' = Some GDT_Byte" by (simp add: TYPE_DICT_def)
  have "\<forall>b \<in> set [3, 1 :: int]. 1 \<le> b \<and> b \<le> int (RasterCount five_bands)" by (simp add: c)
  from setupOptions_band_subset[OF _ this t, of "''GTiff''" "[0, 255]"] c p t show ?thesis
    by (simp add: five_bands_def band_min_def band_max_def)
qed

text \<open>
  Claim C10. Band numbers are not checked against 1 to \<^verbatim>\<open>RasterCount\<close>: for a band list
  that contains 0 (its other numbers between 0 and \<^verbatim>\<open>RasterCount\<close>), on a dataset with at
  least one band, option setup raises nothing; it returns options with the band list as
  requested and, wherever the list has 0, the tuple of the last band.
\<close>

theorem setupOptions_band_zero:
  assumes "RasterBands ds \<noteq> []" and "TYPE_DICT outputType = Some t"
    and "0 \<in> set bs" and "\<forall>b \<in> set bs. 0 \<le> b \<and> b \<le> int (RasterCount ds)"
  shows "\<exists>options. setupOptions ds outputFormat outputType outputRange (Some bs) = Inr options \<and>
           opt_bandList options = bs \<and>
           length (opt_scaleParams options) = length bs \<and>
           (\<forall>k < length bs. bs ! k = 0 \<longrightarrow>
              opt_scaleParams options ! k =
                [band_min (last (RasterBands ds)), band_max (last (RasterBands ds))] @ outputRange)"
proof -
  from assms(3) have ne: "bs \<noteq> []" by auto
  from assms(1) have pos: "0 < RasterCount ds" by (simp add: RasterCount_def)
  have rng: "- int (RasterCount ds) < b \<and> b \<le> int (RasterCount ds)" if "b \<in> set bs" for b
    using assms(4) that pos by fastforce
  have lst: "pick (RasterBands ds) (0 - 1) = last (RasterBands ds)"
    using assms(1) by (simp add: pick_def last_conv_nth nat_diff_distrib')
  have e: "setupOptions ds outputFormat outputType outputRange (Some bs) =
     Inr \<lparr>opt_format = outputFormat, opt_outputType = t, opt_bandList = bs,
          opt_scaleParams =
            map (\<lambda>b. [band_min (pick (RasterBands ds) (b - 1)),
                       band_max (pick (RasterBands ds) (b - 1))] @ outputRange) bs\<rparr>"
    by (rule setupOptions_selected[OF ne assms(2) rng])
  show ?thesis
    unfolding e using lst by simp
qed

text \<open>Bands \<^verbatim>\<open>"0,2"\<close> of the five-band dataset: band 0 gets the tuple of band 5.\<close>

theorem setupOptions_band_zero_witness:
  "RasterBands five_bands \<noteq> [] \<and> TYPE_DICT ''Byte'' = Some GDT_Byte \<and>
   (\<exists>options. setupOptions five_bands ''GTiff'' ''Byte'' [0, 255] (Some [0, 2]) = Inr options \<and>
      opt_bandList options = [0, 2] \<and>
      length (opt_scaleParams options) = 2 \<and>
      opt_scaleParams options ! 0 = [5, 15, 0, 255])"
proof -
  have t: "TYPE_DICT ''Byte'' = Some GDT_Byte" by (simp add: TYPE_DICT_def)
  have ne: "RasterBands five_bands \<noteq> []" by (simp add: five_bands_def)
  have z: "0 \<in> set [0, 2 :: int]" by simp
  have r: "\<forall>b \<in> set [0, 2 :: int]. 0 \<le> b \<and> b \<le> int (RasterCount five_bands)"
    by (simp add: RasterCount_def five_bands_def)
  have l: "band_min (last (RasterBands five_bands)) = 5"
    "band_max (last (RasterBands five_bands)) = 15"
    by (simp_all add: five_bands_def band_min_def band_max_def)
  from setupOptions_band_zero[OF ne t z r, of "''GTiff''" "[0, 255]"] ne t show ?thesis
    by (auto simp: l)
qed

subsection \<open>File resolution\<close>

lemma get_extension_unfold:
  "get_extension w p format evs =
     (let evs' = (if lower format \<noteq> ''native'' then evs else evs @ [Opened (str_path p)]) in
      if lower format = ''native'' \<and> Open w (str_path p) = None then (Inl AttributeError, evs')
      else
        (case resolved_driver w p format of
           None \<Rightarrow> (Inl AssertionError, evs')
         | Some drv \<Rightarrow>
             if \<not> truthy (GetMetadataItem drv ''DCAP_RASTER'') then (Inl UnboundLocalError, evs')
             else
               (case driver_extension drv format of
                  None \<Rightarrow> (Inl AssertionError, evs')
                | Some ext \<Rightarrow> if ext = [] then (Inl AssertionError, evs') else (Inr ext, evs'))))"
proof (cases "lower format \<noteq> ''native''")
  case True
  then show ?thesis
    by (cases "GetDriverByName w format")
       (simp_all add: get_extension_def resolved_driver_def driver_extension_def truthy_def
          split: option.split)
next
  case False
  then show ?thesis
    by (cases "Open w (str_path p)")
       (simp_all add: get_extension_def resolved_driver_def driver_extension_def truthy_def
          split: option.split)
qed

lemma get_extension_iff:
  "get_extension w p format evs = (Inr ext, evs') \<longleftrightarrow>
     resolves w p format ext \<and>
     evs' = (if lower format \<noteq> ''native'' then evs else evs @ [Opened (str_path p)])"
proof (cases "resolved_driver w p format")
  case None
  then show ?thesis
    by (simp add: get_extension_unfold resolves_def Let_def)
next
  case (Some drv)
  then have "\<not> (lower format = ''native'' \<and> Open w (str_path p) = None)"
    by (auto simp: resolved_driver_def)
  with Some show ?thesis
    by (cases "driver_extension drv format")
       (auto simp: get_extension_unfold resolves_def Let_def)
qed

lemma get_extension_events:
  "snd (get_extension w p format evs) =
     (if lower format \<noteq> ''native'' then evs else evs @ [Opened (str_path p)])"
  by (simp add: get_extension_unfold Let_def split: option.split)

lemma resolves_opens:
  "resolves w p format ext \<Longrightarrow> lower format = ''native'' \<Longrightarrow> Open w (str_path p) \<noteq> None"
  by (auto simp: resolves_def resolved_driver_def split: option.splits)

lemma parse_files_loop_ok:
  assumes "\<forall>f \<in> set fs. wanted w f \<longrightarrow> (\<exists>ext. resolves w f format ext)"
  shows "\<exists>outs evs'.
           parse_files_loop w outpath format fs files outpaths evs =
             (Inr (files @ filter (wanted w) fs, outpaths @ outs), evs') \<and>
           list_all2 (\<lambda>f out. \<exists>ext. resolves w f format ext \<and>
                        out = joinpath outpath (Path (stem f @ ''_converted.'' @ ext)))
             (filter (wanted w) fs) outs"
  using assms
proof (induction fs arbitrary: files outpaths evs)
  case Nil
  then show ?case by simp
next
  case (Cons f fs)
  show ?case
  proof (cases "wanted w f")
    case False
    then have "lower (suffix f) = ''.xml'' \<or> is_dir w f"
      by (auto simp: wanted_def)
    with False Cons.IH[of files outpaths evs] Cons.prems show ?thesis
      by auto
  next
    case True
    with Cons.prems obtain ext where r: "resolves w f format ext" by auto
    define evs1 where "evs1 = (if lower format \<noteq> ''native'' then evs else evs @ [Opened (str_path f)])"
    have g: "get_extension w f format evs = (Inr ext, evs1)"
      by (simp add: get_extension_iff r evs1_def)
    define o1 where "o1 = joinpath outpath (Path (stem f @ ''_converted.'' @ ext))"
    from Cons.IH[of "files @ [f]" "outpaths @ [o1]" evs1] Cons.prems
    obtain outs evs' where
      "parse_files_loop w outpath format fs (files @ [f]) (outpaths @ [o1]) evs1 =
             (Inr ((files @ [f]) @ filter (wanted w) fs, (outpaths @ [o1]) @ outs), evs')"
      "list_all2 (\<lambda>f out. \<exists>ext. resolves w f format ext \<and>
                        out = joinpath outpath (Path (stem f @ ''_converted.'' @ ext)))
             (filter (wanted w) fs) outs"
      by auto
    moreover from True have "\<not> (lower (suffix f) = ''.xml'' \<or> is_dir w f)"
      by (auto simp: wanted_def)
    ultimately show ?thesis
      using True r
      by (intro exI[of _ "o1 # outs"] exI[of _ evs']) (auto simp: g o1_def)
  qed
qed

lemma parse_files_loop_sound:
  assumes "parse_files_loop w outpath format fs files outpaths evs = (Inr (files', outs'), evs')"
    and "length files = length outpaths"
    and "\<forall>f \<in> set files. lower format = ''native'' \<longrightarrow> Open w (str_path f) \<noteq> None"
  shows "length files' = length outs' \<and>
         (\<forall>f \<in> set files'. lower format = ''native'' \<longrightarrow> Open w (str_path f) \<noteq> None)"
  using assms
proof (induction fs arbitrary: files outpaths evs)
  case Nil
  then show ?case by simp
next
  case (Cons f fs)
  show ?case
  proof (cases "lower (suffix f) = ''.xml'' \<or> is_dir w f")
    case True
    with Cons.prems have "parse_files_loop w outpath format fs files outpaths evs = (Inr (files', outs'), evs')"
      by simp
    from Cons.IH[OF this Cons.prems(2,3)] show ?thesis .
  next
    case False
    with Cons.prems(1) obtain ext evs1 where
      g: "get_extension w f format evs = (Inr ext, evs1)" and
      l: "parse_files_loop w outpath format fs (files @ [f])
             (outpaths @ [joinpath outpath (Path (stem f @ ''_converted.'' @ ext))]) evs1 =
           (Inr (files', outs'), evs')"
      by (auto split: prod.splits sum.splits)
    from g have "resolves w f format ext" by (simp add: get_extension_iff)
    then have o: "lower format = ''native'' \<longrightarrow> Open w (str_path f) \<noteq> None"
      using resolves_opens by blast
    show ?thesis
      by (rule Cons.IH[OF l]) (use Cons.prems(2,3) o in auto)
  qed
qed

lemma parse_files_loop_events:
  "\<exists>new. snd (parse_files_loop w outpath format fs files outpaths evs) = evs @ new \<and>
         list_all is_Opened new"
proof (induction fs arbitrary: files outpaths evs)
  case Nil
  then show ?case by simp
next
  case (Cons f fs)
  show ?case
  proof (cases "lower (suffix f) = ''.xml'' \<or> is_dir w f")
    case True
    with Cons.IH[of files outpaths evs] show ?thesis by simp
  next
    case False
    obtain r evs1 where g: "get_extension w f format evs = (r, evs1)" by force
    with get_extension_events[of w f format evs]
    have e1: "evs1 = (if lower format \<noteq> ''native'' then evs else evs @ [Opened (str_path f)])"
      by simp
    show ?thesis
    proof (cases r)
      case (Inl e)
      with False g e1 show ?thesis by auto
    next
      case (Inr ext)
      from Cons.IH[of "files @ [f]"
          "outpaths @ [joinpath outpath (Path (stem f @ ''_converted.'' @ ext))]" evs1]
      obtain new where "snd (parse_files_loop w outpath format fs (files @ [f])
          (outpaths @ [joinpath outpath (Path (stem f @ ''_converted.'' @ ext))]) evs1) = evs1 @ new"
        "list_all is_Opened new" by blast
      with False g Inr e1 show ?thesis by auto
    qed
  qed
qed


lemma parse_files_events:
  "\<exists>new. snd (parse_files w input output format evs) = evs @ new \<and> list_all is_Opened new"
proof -
  have l: "\<exists>new. snd (parse_files_loop w outpath format fs [] [] evs) = evs @ new \<and>
             list_all is_Opened new" for outpath fs
    by (rule parse_files_loop_events)
  have g: "\<exists>new. snd (get_extension w p format evs) = evs @ new \<and> list_all is_Opened new" for p
    by (simp add: get_extension_events)
  show ?thesis
  proof (cases input)
    case None
    then show ?thesis by (simp add: parse_files_def)
  next
    case (Some inp)
    show ?thesis
    proof (cases "exists_path w (Path inp) \<and> inp \<noteq> []")
      case False
      with Some show ?thesis by (auto simp: parse_files_def)
    next
      case ok: True
      show ?thesis
      proof (cases "is_dir w (Path inp)")
        case True
        with Some ok l show ?thesis
          by (cases "output") (simp_all add: parse_files_def Let_def)
      next
        case nd: False
        show ?thesis
        proof (cases "is_file w (Path inp)")
          case False
          with Some ok nd show ?thesis by (simp add: parse_files_def Let_def)
        next
          case True
          obtain r evs1 where ge: "get_extension w (Path inp) format evs = (r, evs1)" by force
          with g[of "Path inp"] obtain new where "evs1 = evs @ new" "list_all is_Opened new"
            by auto
          with Some ok nd True ge show ?thesis
            by (cases r) (auto simp: parse_files_def Let_def)
        qed
      qed
    qed
  qed
qed

text \<open>
  Claim C5. For a single-file input with no output path, file resolution returns exactly
  one job: the input path, paired with the path \<^verbatim>\<open>converted.EXT\<close> in the input's parent
  directory, where \<^verbatim>\<open>EXT\<close> is the extension of the resolved driver: the driver of the
  requested format, or the file's own driver when the format is native. (The file is
  not a \<^verbatim>\<open>.xml\<close> file, which \<^verbatim>\<open>parse_files\<close> rejects, and the resolved driver supports
  rasters and has an extension, so that there is an extension to speak about.)
\<close>
theorem parse_files_single_file:
  assumes "is_file w (Path inp)" and "inp \<noteq> []" and "\<not> truthy output"
    and "lower (suffix (Path inp)) \<noteq> ''.xml''"
    and "resolved_driver w (Path inp) format = Some drv"
    and "truthy (GetMetadataItem drv ''DCAP_RASTER'')"
    and "driver_extension drv format = Some ext" and "ext \<noteq> []"
  shows "fst (parse_files w (Some inp) output format evs) =
           Inr ([Path inp], [joinpath (parent (Path inp)) (Path (''converted.'' @ ext))])"
proof -
  from assms(5-8) have "resolves w (Path inp) format ext" by (simp add: resolves_def)
  then obtain evs1 where g: "get_extension w (Path inp) format evs = (Inr ext, evs1)"
    by (simp add: get_extension_iff)
  from assms(1) have k: "exists_path w (Path inp)" "\<not> is_dir w (Path inp)"
    by (simp_all add: is_file_def exists_path_def is_dir_def)
  from assms(1-4) k show ?thesis
    by (simp add: parse_files_def g Let_def)
qed

text \<open>A GeoTIFF given with no format and no output: \<^verbatim>\<open>converted.tif\<close> beside it.\<close>

theorem parse_files_single_file_witness:
  "is_file sample (Path ''in/a.tif'') \<and>
   resolved_driver sample (Path ''in/a.tif'') ''Native'' = Some GTiff \<and>
   fst (parse_files sample (Some ''in/a.tif'') None ''Native'' []) =
     Inr ([rel [''in'', ''a.tif'']], [rel [''in'', ''converted.tif'']])"
proof -
  have p: "Path ''in/a.tif'' = rel [''in'', ''a.tif'']" by (simp add: Path_def rel_def)
  have f: "is_file sample (Path ''in/a.tif'')"
    unfolding p by (simp add: is_file_def sample_def rel_def)
  have n: "lower ''Native'' = ''native''" by (simp add: lower_def lower_char_def)
  have s: "str_path (rel [''in'', ''a.tif'']) = ''in/a.tif''" by (simp add: str_path_def rel_def)
  have d: "resolved_driver sample (Path ''in/a.tif'') ''Native'' = Some GTiff"
    unfolding p by (simp add: resolved_driver_def n s) (simp add: sample_def scene_def)
  have x: "lower (suffix (Path ''in/a.tif'')) \<noteq> ''.xml''"
    unfolding p by (simp add: suffix_def name_def rel_def lower_def lower_char_def)
  have r: "truthy (GetMetadataItem GTiff ''DCAP_RASTER'')"
    by (simp add: truthy_def GetMetadataItem_def GTiff_def)
  have e: "driver_extension GTiff ''Native'' = Some ''tif''"
    by (simp add: driver_extension_def GTiff_def)
  have o: "joinpath (parent (rel [''in'', ''a.tif''])) (Path ''converted.tif'') =
      rel [''in'', ''converted.tif'']"
    by (simp add: joinpath_def parent_def Path_def rel_def)
  from parse_files_single_file[OF f _ _ x d r e, of None "[]"] f d show ?thesis
    by (simp add: truthy_def o p)
qed

text \<open>
  Claim C6. For a directory input with an existing output directory, when the extension
  of every kept file resolves, file resolution returns the paths that \<^verbatim>\<open>rglob\<close> yields
  below the input directory, in that order, without the directories and without the
  files whose lowered suffix is \<^verbatim>\<open>.xml\<close>: each as often as \<^verbatim>\<open>rglob\<close> yields it, so once
  when \<^verbatim>\<open>rglob\<close> yields every path once. The output list pairs each file, position by
  position, with \<^verbatim>\<open>STEM_converted.EXT\<close> in the output directory, the extension being
  resolved for that file.
\<close>
theorem parse_files_directory_jobs:
  assumes "is_dir w (Path inp)" and "inp \<noteq> []" and "is_dir w (Path out)"
    and "\<forall>f \<in> set (rglob w (Path inp)). wanted w f \<longrightarrow> (\<exists>ext. resolves w f format ext)"
  shows "\<exists>files outpaths.
           fst (parse_files w (Some inp) (Some out) format evs) = Inr (files, outpaths) \<and>
           files = filter (wanted w) (rglob w (Path inp)) \<and>
           (\<forall>f \<in> set files. \<not> is_dir w f \<and> lower (suffix f) \<noteq> ''.xml'') \<and>
           (distinct (rglob w (Path inp)) \<longrightarrow> distinct files) \<and>
           list_all2 (\<lambda>f outpath. \<exists>ext. resolves w f format ext \<and>
                        outpath = joinpath (Path out) (Path (stem f @ ''_converted.'' @ ext)))
             files outpaths"
proof -
  from parse_files_loop_ok[OF assms(4), of "Path out" "[]" "[]" evs]
  obtain outs evs' where
    l: "parse_files_loop w (Path out) format (rglob w (Path inp)) [] [] evs =
          (Inr (filter (wanted w) (rglob w (Path inp)), outs), evs')"
    and a: "list_all2 (\<lambda>f outpath. \<exists>ext. resolves w f format ext \<and>
                        outpath = joinpath (Path out) (Path (stem f @ ''_converted.'' @ ext)))
             (filter (wanted w) (rglob w (Path inp))) outs"
    by auto
  from assms(1) have k: "exists_path w (Path inp)"
    by (simp add: exists_path_def is_dir_def)
  have "fst (parse_files w (Some inp) (Some out) format evs) =
          Inr (filter (wanted w) (rglob w (Path inp)), outs)"
    using assms(1-3) k by (simp add: parse_files_def Let_def l)
  moreover have "\<forall>f \<in> set (filter (wanted w) (rglob w (Path inp))).
      \<not> is_dir w f \<and> lower (suffix f) \<noteq> ''.xml''"
    by (simp add: wanted_def)
  ultimately show ?thesis using a by auto
qed

text \<open>The sample directory: the sidecar file and the subdirectory are left out.\<close>

theorem parse_files_directory_jobs_witness:
  "is_dir sample (Path ''in'') \<and> is_dir sample (Path ''out'') \<and>
   distinct (rglob sample (Path ''in'')) \<and>
   fst (parse_files sample (Some ''in'') (Some ''out'') ''Native'' []) =
     Inr ([rel [''in'', ''a.tif''], rel [''in'', ''sub'', ''b.png'']],
          [rel [''out'', ''a_converted.tif''], rel [''out'', ''b_converted.png'']])"
proof -
  have p: "Path ''in'' = rel [''in'']" "Path ''out'' = rel [''out'']"
    by (simp_all add: Path_def rel_def)
  have d: "is_dir sample (Path ''in'')" "is_dir sample (Path ''out'')"
    unfolding p by (simp_all add: is_dir_def sample_def rel_def)
  have g: "rglob sample (Path ''in'') =
      [rel [''in'', ''a.tif''], rel [''in'', ''a.tif.aux.xml''], rel [''in'', ''sub''],
       rel [''in'', ''sub'', ''b.png'']]"
    unfolding p by (simp add: sample_def)
  have dist: "distinct (rglob sample (Path ''in''))"
    unfolding g by (simp add: rel_def)
  have w: "wanted sample (rel [''in'', ''a.tif''])"
    "\<not> wanted sample (rel [''in'', ''a.tif.aux.xml''])"
    "\<not> wanted sample (rel [''in'', ''sub''])"
    "wanted sample (rel [''in'', ''sub'', ''b.png''])"
    by code_simp+
  have r: "resolves sample (rel [''in'', ''a.tif'']) ''Native'' ext \<longleftrightarrow> ext = ''tif''"
    "resolves sample (rel [''in'', ''sub'', ''b.png'']) ''Native'' ext \<longleftrightarrow> ext = ''png''" for ext
  proof -
    have n: "lower ''Native'' = ''native''" by code_simp
    have s: "str_path (rel [''in'', ''a.tif'']) = ''in/a.tif''"
      "str_path (rel [''in'', ''sub'', ''b.png'']) = ''in/sub/b.png''" by code_simp+
    have o: "Open sample ''in/a.tif'' = Some scene" "Open sample ''in/sub/b.png'' = Some photo"
      by (simp_all add: sample_def)
    have t: "truthy (GetMetadataItem GTiff ''DCAP_RASTER'')"
      "truthy (GetMetadataItem PNG ''DCAP_RASTER'')" by code_simp+
    have e: "driver_extension GTiff ''Native'' = Some ''tif''"
      "driver_extension PNG ''Native'' = Some ''png''" by code_simp+
    show "resolves sample (rel [''in'', ''a.tif'']) ''Native'' ext \<longleftrightarrow> ext = ''tif''"
      by (auto simp: resolves_def resolved_driver_def n s o t e scene_def)
    show "resolves sample (rel [''in'', ''sub'', ''b.png'']) ''Native'' ext \<longleftrightarrow> ext = ''png''"
      by (auto simp: resolves_def resolved_driver_def n s o t e photo_def)
  qed
  have h: "\<forall>f \<in> set (rglob sample (Path ''in'')).
      wanted sample f \<longrightarrow> (\<exists>ext. resolves sample f ''Native'' ext)"
  proof -
    have "\<exists>ext. resolves sample (rel [''in'', ''a.tif'']) ''Native'' ext"
      "\<exists>ext. resolves sample (rel [''in'', ''sub'', ''b.png'']) ''Native'' ext"
      using r by blast+
    with w show ?thesis unfolding g by simp
  qed
  have st: "stem (rel [''in'', ''a.tif'']) = ''a''" "stem (rel [''in'', ''sub'', ''b.png'']) = ''b''"
    by code_simp+
  have j: "joinpath (Path ''out'') (Path ''a_converted.tif'') = rel [''out'', ''a_converted.tif'']"
    "joinpath (Path ''out'') (Path ''b_converted.png'') = rel [''out'', ''b_converted.png'']"
    by code_simp+
  from parse_files_directory_jobs[OF d(1) _ d(2) h, of "[]"] obtain files outpaths where
    res: "fst (parse_files sample (Some ''in'') (Some ''out'') ''Native'' []) = Inr (files, outpaths)"
    and fs: "files = filter (wanted sample) (rglob sample (Path ''in''))"
    and la: "list_all2 (\<lambda>f outpath. \<exists>ext. resolves sample f ''Native'' ext \<and>
                 outpath = joinpath (Path ''out'') (Path (stem f @ ''_converted.'' @ ext)))
             files outpaths"
    by auto
  from fs have fs': "files = [rel [''in'', ''a.tif''], rel [''in'', ''sub'', ''b.png'']]"
    by (simp add: g w)
  from la have "outpaths = [rel [''out'', ''a_converted.tif''], rel [''out'', ''b_converted.png'']]"
    unfolding fs' by (auto simp: list_all2_Cons1 r st j)
  with res fs' d dist show ?thesis by simp
qed

text \<open>
  Claim C9. For a directory input, if the output option was left out or does not name
  an existing directory, file resolution fails and the event list is what it was: no
  dataset was opened. Then \<^verbatim>\<open>main\<close> fails too, with no event at all.
\<close>
theorem parse_files_directory_needs_output:
  assumes "is_dir w (Path inp)"
    and "output = None \<or> (\<exists>out. output = Some out \<and> \<not> is_dir w (Path out))"
  shows "(\<exists>e. parse_files w (Some inp) output format evs = (Inl e, evs)) \<and>
         (arg_input args = Some inp \<and> arg_output args = output \<longrightarrow>
            (\<exists>e. main w args = (Inl e, [])))"
proof -
  have f: "\<exists>e. parse_files w (Some inp) output format' evs' = (Inl e, evs')" for format' evs'
    using assms by (auto simp: parse_files_def Let_def)
  from f[of "arg_format args" "[]"] obtain e where
    "parse_files w (Some inp) output (arg_format args) [] = (Inl e, [])" ..
  then have "arg_input args = Some inp \<and> arg_output args = output \<longrightarrow> main w args = (Inl e, [])"
    by (simp add: main_def)
  with f[of format evs] show ?thesis by blast
qed


text \<open>The sample directory with no output, and with a file as output.\<close>

theorem parse_files_directory_needs_output_witness:
  "is_dir sample (Path ''in'') \<and> \<not> is_dir sample (Path ''in/a.tif'') \<and>
   (\<exists>e. parse_files sample (Some ''in'') None ''Native'' [] = (Inl e, [])) \<and>
   (\<exists>e. parse_files sample (Some ''in'') (Some ''in/a.tif'') ''Native'' [] = (Inl e, [])) \<and>
   (\<exists>e. main sample (sample_args\<lparr>arg_output := None\<rparr>) = (Inl e, []))"
proof -
  have d: "is_dir sample (Path ''in'')" "\<not> is_dir sample (Path ''in/a.tif'')"
    by code_simp+
  have a: "arg_input (sample_args\<lparr>arg_output := None\<rparr>) = Some ''in''"
    "arg_output (sample_args\<lparr>arg_output := None\<rparr>) = None"
    by (simp_all add: sample_args_def)
  from parse_files_directory_needs_output[OF d(1), of None "''Native''" "[]"
      "sample_args\<lparr>arg_output := None\<rparr>"]
    parse_files_directory_needs_output[OF d(1), of "Some ''in/a.tif''" "''Native''" "[]"
      "sample_args"]
    d a
  show ?thesis by simp
qed

text \<open>
  Claim C8, evaluated at a driver without raster capability. The claim asks for an
  assertion error; \<^verbatim>\<open>ext\<close> was never assigned, and reading it raises
  \<^verbatim>\<open>UnboundLocalError\<close> before the assertion message of line 117 is reached.
\<close>
theorem get_extension_vector_driver:
  "GetDriverByName sample ''ESRI Shapefile'' = Some Shapefile \<and>
   GetMetadataItem Shapefile ''DCAP_RASTER'' = None \<and>
   get_extension sample (Path ''in/a.tif'') ''ESRI Shapefile'' [] = (Inl UnboundLocalError, [])"
  by code_simp

subsection \<open>Runs of main\<close>

lemma get_dtype_events: "snd (get_dtype w p evs) = evs @ [Opened (str_path p)]"
  by (simp add: get_dtype_def Let_def split: option.split)

lemma unrecognised_type:
  "t \<notin> set type_names \<Longrightarrow> BITRANGE t = None \<and> TYPE_DICT t = None"
  by (simp add: type_names_def BITRANGE_def TYPE_DICT_def)

lemma setupOptions_unrecognised:
  "TYPE_DICT outputType = None \<Longrightarrow> \<exists>e. setupOptions ds outputFormat outputType outputRange bands = Inl e"
  by (simp add: setupOptions_def Let_def split: sum.split)

lemma comprehension_error:
  "comprehension f xs = Inl e \<Longrightarrow> \<exists>x \<in> set xs. f x = Inl e"
  by (induction xs) (auto split: sum.splits)

lemma subscript_error: "subscript xs i = Inl e \<Longrightarrow> e = IndexError"
  by (auto simp: subscript_def split: if_splits)

lemma setupOptions_errors:
  assumes "setupOptions ds outputFormat outputType outputRange bands = Inl e"
  shows "e = ValueError \<or> e = IndexError \<or> e = KeyError ''TYPE_DICT'' outputType"
proof (cases "getScaleParams ds outputRange")
  case (Inl e')
  then have "e' = ValueError" by (auto simp: getScaleParams_def Let_def split: if_splits)
  with Inl assms show ?thesis by (simp add: setupOptions_def)
next
  case (Inr sp)
  define bl where "bl = (if \<not> truthy bands then map int [1 ..< RasterCount ds + 1] else the bands)"
  show ?thesis
  proof (cases "comprehension (\<lambda>i. subscript sp (i - 1)) bl")
    case (Inl e')
    from comprehension_error[OF this] subscript_error have "e' = IndexError" by blast
    with Inl Inr assms show ?thesis by (simp add: setupOptions_def bl_def[symmetric] Let_def)
  next
    case c: (Inr sel)
    with Inr assms show ?thesis
      by (cases "TYPE_DICT outputType") (simp_all add: setupOptions_def bl_def[symmetric] Let_def)
  qed
qed

lemma opened_not_translated: "is_Opened e \<Longrightarrow> \<not> is_Translated e"
  by (cases e) auto

lemma opened_scaled_to: "is_Opened e \<Longrightarrow> scaled_to r e"
  by (cases e) auto

lemma main_body_explicit_range:
  assumes "arg_range args = Some r" and "r \<noteq> []"
    and "main_body w bands_out args job evs = (res, evs')"
  shows "(\<exists>new. evs' = evs @ new \<and> list_all (scaled_to r) new) \<and>
         (\<forall>k. res \<noteq> Inl (KeyError ''BITRANGE'' k)) \<and>
         (\<forall>args'. res = Inr args' \<longrightarrow> arg_range args' = Some r)"
proof -
  obtain entry out where job: "job = (entry, out)" by (cases job)
  define ds where "ds = Open w (str_path entry)"
  define evs1 where "evs1 = evs @ [Opened (str_path entry)]"
  define r1 where "r1 = (if lower (arg_format args) = ''native''
            then (case ds of
                    None \<Rightarrow> Inl AttributeError
                  | Some d \<Rightarrow> Inr (args\<lparr>arg_format := Description (Driver d)\<rparr>))
            else Inr args)"
  show ?thesis
  proof (cases r1)
    case (Inl e)
    with assms(3) have "res = Inl e" "evs' = evs1"
      by (simp_all add: main_body_def job ds_def[symmetric] evs1_def[symmetric] r1_def[symmetric])
    moreover from Inl have "e = AttributeError"
      by (auto simp: r1_def split: if_splits option.splits)
    ultimately show ?thesis by (simp add: evs1_def)
  next
    case (Inr args1)
    then have a1: "arg_range args1 = Some r" "arg_dtype args1 = arg_dtype args"
      using assms(1) by (auto simp: r1_def split: if_splits option.splits)
    define r2 where "r2 = (if lower (arg_dtype args1) = ''native''
                 then (case get_dtype w entry evs1 of
                         (Inl e, evs) \<Rightarrow> (Inl e, evs)
                       | (Inr t, evs) \<Rightarrow> (Inr (args1\<lparr>arg_dtype := t\<rparr>), evs))
                 else (Inr args1, evs1))"
    obtain x evs2 where r2: "r2 = (x, evs2)" by force
    have e2: "\<exists>new. evs2 = evs @ new \<and> list_all is_Opened new"
    proof (cases "lower (arg_dtype args1) = ''native''")
      case True
      obtain y z where g: "get_dtype w entry evs1 = (y, z)" by force
      with get_dtype_events[of w entry evs1] have "z = evs1 @ [Opened (str_path entry)]" by simp
      with True g r2 have "evs2 = evs1 @ [Opened (str_path entry)]"
        by (cases y) (auto simp: r2_def)
      then show ?thesis by (simp add: evs1_def)
    next
      case False
      with r2 show ?thesis by (auto simp: r2_def evs1_def)
    qed
    from e2 have e2: "\<exists>new. evs2 = evs @ new \<and> list_all (scaled_to r) new"
      by (auto simp: list_all_iff opened_scaled_to)
    have step: "main_body w bands_out args job evs =
      (case r2 of
             (Inl e, evs) \<Rightarrow> (Inl e, evs)
           | (Inr args, evs) \<Rightarrow>
               (case (if truthy (arg_range args) then Inr (the (arg_range args))
                      else (case BITRANGE (arg_dtype args) of
                              None \<Rightarrow> Inl (KeyError ''BITRANGE'' (arg_dtype args))
                            | Some r \<Rightarrow> Inr r)) of
                  Inl e \<Rightarrow> (Inl e, evs)
                | Inr outputRange \<Rightarrow>
                    (case ds of
                       None \<Rightarrow> (Inl AttributeError, evs)
                     | Some d \<Rightarrow>
                         (case setupOptions d (arg_format args) (arg_dtype args)
                                 outputRange bands_out of
                            Inl e \<Rightarrow> (Inl e, evs)
                          | Inr options \<Rightarrow>
                              (Inr args, evs @ [Translated (str_path out) d options])))))"
      using Inr
      by (simp add: main_body_def job ds_def[symmetric] evs1_def[symmetric] r1_def[symmetric]
            r2_def[symmetric])
    show ?thesis
    proof (cases x)
      case (Inl e)
      with step r2 assms(3) have "res = Inl e" "evs' = evs2" by simp_all
      moreover from Inl r2 have "e = AttributeError"
        by (auto simp: r2_def get_dtype_def Let_def split: if_splits option.splits)
      ultimately show ?thesis using e2 by (auto simp: list_all_iff)
    next
      case (Inr args2)
      with r2 have a2: "arg_range args2 = Some r"
        using a1 by (auto simp: r2_def split: if_splits prod.splits sum.splits)
      then have t: "truthy (arg_range args2)" "the (arg_range args2) = r"
        using assms(2) by (simp_all add: truthy_def)
      show ?thesis
      proof (cases ds)
        case None
        with step r2 Inr t assms(3) have "res = Inl AttributeError" "evs' = evs2" by simp_all
        then show ?thesis using e2 by (auto simp: list_all_iff)
      next
        case (Some d)
        show ?thesis
        proof (cases "setupOptions d (arg_format args2) (arg_dtype args2) r bands_out")
          case (Inl e)
          with step r2 Inr t Some assms(3) have "res = Inl e" "evs' = evs2" by simp_all
          moreover from setupOptions_errors[OF Inl] have "e \<noteq> KeyError ''BITRANGE'' k" for k
            by auto
          ultimately show ?thesis using e2 by (auto simp: list_all_iff)
        next
          case so: (Inr options)
          with step r2 Inr t Some assms(3) have
            "res = Inr args2" "evs' = evs2 @ [Translated (str_path out) d options]" by simp_all
          moreover have "scaled_to r (Translated (str_path out) d options)"
            using setupOptions_tuples[OF so] by simp
          ultimately show ?thesis using e2 a2 by (auto simp: list_all_iff)
        qed
      qed
    qed
  qed
qed


lemma main_loop_explicit_range:
  assumes "arg_range args = Some r" and "r \<noteq> []"
    and "main_loop w bands_out args jobs evs = (res, evs')"
  shows "(\<exists>new. evs' = evs @ new \<and> list_all (scaled_to r) new) \<and>
         (\<forall>k. res \<noteq> Inl (KeyError ''BITRANGE'' k))"
  using assms
proof (induction jobs arbitrary: args evs)
  case Nil
  then show ?case by auto
next
  case (Cons job jobs)
  obtain x evs1 where b: "main_body w bands_out args job evs = (x, evs1)" by force
  note mb = main_body_explicit_range[OF Cons.prems(1,2) b]
  from mb obtain new1 where n1: "evs1 = evs @ new1" "list_all (scaled_to r) new1" by blast
  show ?case
  proof (cases x)
    case (Inl e)
    with b Cons.prems(3) have "res = Inl e" "evs' = evs1" by simp_all
    with mb Inl n1 show ?thesis by auto
  next
    case (Inr args1)
    with mb have a: "arg_range args1 = Some r" by simp
    from Inr b Cons.prems(3) have "main_loop w bands_out args1 jobs evs1 = (res, evs')" by simp
    from Cons.IH[OF a Cons.prems(2) this] n1 show ?thesis by auto
  qed
qed

lemma get_extension_errors:
  "fst (get_extension w p format evs) = Inl e \<Longrightarrow>
     e = AttributeError \<or> e = AssertionError \<or> e = UnboundLocalError"
  by (auto simp: get_extension_unfold Let_def split: if_splits option.splits)

lemma parse_files_loop_errors:
  "fst (parse_files_loop w outpath format fs files outpaths evs) = Inl e \<Longrightarrow>
     e = AttributeError \<or> e = AssertionError \<or> e = UnboundLocalError"
proof (induction fs arbitrary: files outpaths evs)
  case Nil
  then show ?case by simp
next
  case (Cons f fs)
  show ?case
  proof (cases "lower (suffix f) = ''.xml'' \<or> is_dir w f")
    case True
    with Cons show ?thesis by simp
  next
    case False
    obtain x evs1 where g: "get_extension w f format evs = (x, evs1)" by force
    show ?thesis
    proof (cases x)
      case (Inl e')
      with False g Cons.prems have "e' = e" by simp
      with Inl g get_extension_errors[of w f format evs e] show ?thesis by simp
    next
      case (Inr ext)
      with False g Cons.prems Cons.IH show ?thesis by simp
    qed
  qed
qed

lemma parse_files_errors:
  assumes "fst (parse_files w input output format evs) = Inl e"
  shows "e = TypeError \<or> e = AttributeError \<or> e = AssertionError \<or> e = UnboundLocalError"
proof (cases input)
  case None
  with assms show ?thesis by (simp add: parse_files_def)
next
  case (Some inp)
  show ?thesis
  proof (cases "exists_path w (Path inp) \<and> inp \<noteq> []")
    case False
    with Some assms show ?thesis by (auto simp: parse_files_def)
  next
    case ok: True
    show ?thesis
    proof (cases "is_dir w (Path inp)")
      case True
      with Some ok assms parse_files_loop_errors show ?thesis
        by (cases "output") (auto simp: parse_files_def Let_def split: if_splits)
    next
      case nd: False
      show ?thesis
      proof (cases "is_file w (Path inp)")
        case False
        with Some ok nd assms show ?thesis by (simp add: parse_files_def Let_def)
      next
        case True
        obtain x evs1 where g: "get_extension w (Path inp) format evs = (x, evs1)" by force
        show ?thesis
        proof (cases x)
          case (Inl e')
          with Some ok nd True g assms have "e' = e" by (simp add: parse_files_def Let_def)
          with Inl g get_extension_errors[of w "Path inp" format evs e] show ?thesis by simp
        next
          case (Inr ext)
          with Some ok nd True g assms show ?thesis
            by (auto simp: parse_files_def Let_def split: if_splits)
        qed
      qed
    qed
  qed
qed

lemma int_of_str_error: "int_of_str s = Inl e \<Longrightarrow> e = ValueError"
  by (auto simp: int_of_str_def Let_def split: prod.splits list.splits option.splits if_splits)

lemma bands_out_of_error: "bands_out_of args = Inl e \<Longrightarrow> e = ValueError"
  by (auto simp: bands_out_of_def split: if_splits sum.splits
        dest!: comprehension_error int_of_str_error)

lemma main_unfold:
  "main w args =
     (case parse_files w (arg_input args) (arg_output args) (arg_format args) [] of
        (Inl e, evs) \<Rightarrow> (Inl e, evs)
      | (Inr (files, outfiles), evs) \<Rightarrow>
          (case bands_out_of args of
             Inl e \<Rightarrow> (Inl e, evs)
           | Inr bands_out \<Rightarrow> main_loop w bands_out args (zip files outfiles) evs))"
  unfolding main_def bands_out_of_def by (rule refl)

text \<open>
  Claim C4. When an explicit output range \<open>[lo, hi]\<close> is given, every scale tuple of every
  translate call of the run is (some band's minimum, that band's maximum, \<open>lo\<close>, \<open>hi\<close>),
  whatever the pixel type is; and the run never ends in a failed lookup in the range
  table, which is not consulted.
\<close>
theorem main_explicit_range:
  assumes "arg_range args = Some [lo, hi]"
  shows "(\<forall>dest ds options. Translated dest ds options \<in> set (snd (main w args)) \<longrightarrow>
            (\<forall>s \<in> set (opt_scaleParams options).
               \<exists>b \<in> set (RasterBands ds). s = [band_min b, band_max b, lo, hi])) \<and>
         (\<forall>k. fst (main w args) \<noteq> Inl (KeyError ''BITRANGE'' k))"
proof -
  obtain x evs0 where pf:
    "parse_files w (arg_input args) (arg_output args) (arg_format args) [] = (x, evs0)"
    by force
  from parse_files_events[of w "arg_input args" "arg_output args" "arg_format args" "[]"] pf
  have o: "list_all is_Opened evs0" by simp
  then have s0: "list_all (scaled_to [lo, hi]) evs0"
    by (auto simp: list_all_iff opened_scaled_to)
  have "list_all (scaled_to [lo, hi]) (snd (main w args)) \<and>
        (\<forall>k. fst (main w args) \<noteq> Inl (KeyError ''BITRANGE'' k))"
  proof (cases x)
    case (Inl e)
    with pf have m: "main w args = (Inl e, evs0)" by (simp add: main_unfold)
    from parse_files_errors[of w "arg_input args" "arg_output args" "arg_format args" "[]" e]
      pf Inl
    have "e \<noteq> KeyError ''BITRANGE'' k" for k by auto
    with m s0 show ?thesis by simp
  next
    case (Inr jobs)
    obtain files outfiles where j: "jobs = (files, outfiles)" by (cases jobs)
    show ?thesis
    proof (cases "bands_out_of args")
      case (Inl e)
      with pf Inr j have m: "main w args = (Inl e, evs0)" by (simp add: main_unfold)
      from bands_out_of_error[OF Inl] have "e \<noteq> KeyError ''BITRANGE'' k" for k by simp
      with m s0 show ?thesis by simp
    next
      case b: (Inr bands_out)
      obtain res evs' where l:
        "main_loop w bands_out args (zip files outfiles) evs0 = (res, evs')" by force
      with pf Inr j b have m: "main w args = (res, evs')" by (simp add: main_unfold)
      from main_loop_explicit_range[OF assms _ l] s0 m show ?thesis by auto
    qed
  qed
  then show ?thesis
    by (auto simp: list_all_iff dest!: bspec)
qed


text \<open>The sample directory converted with the range 0 to 1000.\<close>

theorem main_explicit_range_witness:
  "arg_range (sample_args\<lparr>arg_range := Some [0, 1000]\<rparr>) = Some [0, 1000] \<and>
   Translated ''out/a_converted.tif'' scene
     \<lparr>opt_format = ''GTiff'', opt_outputType = GDT_UInt16, opt_bandList = [1],
      opt_scaleParams = [[10, 200, 0, 1000]]\<rparr>
     \<in> set (snd (main sample (sample_args\<lparr>arg_range := Some [0, 1000]\<rparr>))) \<and>
   (\<exists>b \<in> set (RasterBands scene). [10, 200, 0, 1000] = [band_min b, band_max b, 0, 1000]) \<and>
   fst (main sample (sample_args\<lparr>arg_range := Some [0, 1000]\<rparr>)) = Inr ()"
proof -
  have a: "arg_range (sample_args\<lparr>arg_range := Some [0, 1000]\<rparr>) = Some [0, 1000]"
    by (simp add: sample_args_def)
  have m: "Translated ''out/a_converted.tif'' scene
     \<lparr>opt_format = ''GTiff'', opt_outputType = GDT_UInt16, opt_bandList = [1],
      opt_scaleParams = [[10, 200, 0, 1000]]\<rparr>
     \<in> set (snd (main sample (sample_args\<lparr>arg_range := Some [0, 1000]\<rparr>)))"
    by code_simp
  have r: "fst (main sample (sample_args\<lparr>arg_range := Some [0, 1000]\<rparr>)) = Inr ()"
    by code_simp
  from main_explicit_range[OF a, of sample] m
  have "\<forall>s \<in> set (opt_scaleParams
            \<lparr>opt_format = ''GTiff'', opt_outputType = GDT_UInt16, opt_bandList = [1],
             opt_scaleParams = [[10, 200, 0, 1000]]\<rparr>).
      \<exists>b \<in> set (RasterBands scene). s = [band_min b, band_max b, 0, 1000]"
    by blast
  with a m r show ?thesis by simp
qed

lemma parse_files_sound:
  assumes "fst (parse_files w input output format evs) = Inr (files, outs)"
  shows "length files = length outs \<and>
         (\<forall>f \<in> set files. lower format = ''native'' \<longrightarrow> Open w (str_path f) \<noteq> None)"
proof (cases input)
  case None
  with assms show ?thesis by (simp add: parse_files_def)
next
  case (Some inp)
  show ?thesis
  proof (cases "exists_path w (Path inp) \<and> inp \<noteq> []")
    case False
    with Some assms show ?thesis by (auto simp: parse_files_def)
  next
    case ok: True
    show ?thesis
    proof (cases "is_dir w (Path inp)")
      case True
      show ?thesis
      proof (cases "output")
        case None
        with Some ok True assms show ?thesis by (simp add: parse_files_def Let_def)
      next
        case out: (Some out)
        show ?thesis
        proof (cases "is_dir w (Path out)")
          case False
          with Some ok True out assms show ?thesis by (simp add: parse_files_def Let_def)
        next
          case od: True
          obtain x evs' where
            l: "parse_files_loop w (Path out) format (rglob w (Path inp)) [] [] evs = (x, evs')"
            by force
          with Some ok True out od assms have "x = Inr (files, outs)"
            by (simp add: parse_files_def Let_def)
          with l parse_files_loop_sound[of w "Path out" format "rglob w (Path inp)" "[]" "[]" evs
              files outs evs']
          show ?thesis by simp
        qed
      qed
    next
      case nd: False
      show ?thesis
      proof (cases "is_file w (Path inp)")
        case False
        with Some ok nd assms show ?thesis by (simp add: parse_files_def Let_def)
      next
        case True
        obtain x evs1 where g: "get_extension w (Path inp) format evs = (x, evs1)" by force
        show ?thesis
        proof (cases x)
          case (Inl e)
          with Some ok nd True g assms show ?thesis by (simp add: parse_files_def Let_def)
        next
          case (Inr ext)
          with g have "resolves w (Path inp) format ext" by (simp add: get_extension_iff)
          then have o: "lower format = ''native'' \<longrightarrow> Open w (str_path (Path inp)) \<noteq> None"
            using resolves_opens by blast
          from Some ok nd True g Inr assms have "files = [Path inp]" "length outs = 1"
            by (auto simp: parse_files_def Let_def split: if_splits option.splits)
          with o show ?thesis by simp
        qed
      qed
    qed
  qed
qed

text \<open>
  One pass with a type name that is neither native nor in the tables: it ends in an
  error after the dataset was opened, and the error is the range table's when no range
  was given and the dataset is there to resolve a native format.
\<close>

lemma main_body_unrecognised:
  assumes "lower (arg_dtype args) \<noteq> ''native''" and "arg_dtype args \<notin> set type_names"
  shows "\<exists>e. main_body w bands_out args (entry, out) evs = (Inl e, evs @ [Opened (str_path entry)]) \<and>
           (\<not> truthy (arg_range args) \<and>
            (lower (arg_format args) = ''native'' \<longrightarrow> Open w (str_path entry) \<noteq> None) \<longrightarrow>
              e = KeyError ''BITRANGE'' (arg_dtype args))"
proof -
  from unrecognised_type[OF assms(2)] have
    bt: "BITRANGE (arg_dtype args) = None" and td: "TYPE_DICT (arg_dtype args) = None"
    by simp_all
  define ds where "ds = Open w (str_path entry)"
  define evs1 where "evs1 = evs @ [Opened (str_path entry)]"
  define r1 where "r1 = (if lower (arg_format args) = ''native''
            then (case ds of
                    None \<Rightarrow> Inl AttributeError
                  | Some d \<Rightarrow> Inr (args\<lparr>arg_format := Description (Driver d)\<rparr>))
            else Inr args)"
  show ?thesis
  proof (cases r1)
    case (Inl e)
    then have "main_body w bands_out args (entry, out) evs = (Inl e, evs1)"
      by (simp add: main_body_def ds_def[symmetric] evs1_def[symmetric] r1_def[symmetric])
    moreover from Inl have "lower (arg_format args) = ''native''" "ds = None"
      by (auto simp: r1_def split: if_splits option.splits)
    ultimately show ?thesis by (auto simp: evs1_def ds_def)
  next
    case (Inr args1)
    then have a1: "arg_range args1 = arg_range args" "arg_dtype args1 = arg_dtype args"
      by (auto simp: r1_def split: if_splits option.splits)
    have step: "main_body w bands_out args (entry, out) evs =
               (case (if truthy (arg_range args1) then Inr (the (arg_range args1))
                      else (case BITRANGE (arg_dtype args1) of
                              None \<Rightarrow> Inl (KeyError ''BITRANGE'' (arg_dtype args1))
                            | Some r \<Rightarrow> Inr r)) of
                  Inl e \<Rightarrow> (Inl e, evs1)
                | Inr outputRange \<Rightarrow>
                    (case ds of
                       None \<Rightarrow> (Inl AttributeError, evs1)
                     | Some d \<Rightarrow>
                         (case setupOptions d (arg_format args1) (arg_dtype args1)
                                 outputRange bands_out of
                            Inl e \<Rightarrow> (Inl e, evs1)
                          | Inr options \<Rightarrow>
                              (Inr args1, evs1 @ [Translated (str_path out) d options]))))"
      using Inr assms(1) a1
      by (simp add: main_body_def ds_def[symmetric] evs1_def[symmetric] r1_def[symmetric])
    show ?thesis
    proof (cases "truthy (arg_range args)")
      case False
      with step a1 bt show ?thesis by (simp add: evs1_def)
    next
      case True
      show ?thesis
      proof (cases ds)
        case None
        with step a1 True show ?thesis by (simp add: evs1_def)
      next
        case (Some d)
        from setupOptions_unrecognised[OF td] obtain e where
          "setupOptions d (arg_format args1) (arg_dtype args) (the (arg_range args)) bands_out
             = Inl e" by blast
        with step a1 True Some show ?thesis by (simp add: evs1_def)
      qed
    qed
  qed
qed

text \<open>
  Claim C7, amended. With a pixel type name that is neither native (in any letter case)
  nor one of the eight names of the tables, no translate call is ever issued, whatever
  the input. When moreover no explicit range is given, the band option reads, and file
  resolution returns at least one job, the run fails on the range table's lookup, in
  the first pass of the loop.
\<close>
theorem main_unrecognised_dtype:
  assumes "lower (arg_dtype args) \<noteq> ''native''" and "arg_dtype args \<notin> set type_names"
  shows "(\<forall>e \<in> set (snd (main w args)). \<not> is_Translated e) \<and>
         (\<not> truthy (arg_range args) \<and>
          (\<exists>f files outfiles.
             fst (parse_files w (arg_input args) (arg_output args) (arg_format args) []) =
               Inr (f # files, outfiles)) \<and>
          (\<exists>bands_out. bands_out_of args = Inr bands_out) \<longrightarrow>
            fst (main w args) = Inl (KeyError ''BITRANGE'' (arg_dtype args)))"
proof -
  obtain x evs0 where pf:
    "parse_files w (arg_input args) (arg_output args) (arg_format args) [] = (x, evs0)"
    by force
  from parse_files_events[of w "arg_input args" "arg_output args" "arg_format args" "[]"] pf
  have "list_all is_Opened evs0" by simp
  then have o: "\<forall>e \<in> set evs0. \<not> is_Translated e"
    by (auto simp: list_all_iff opened_not_translated)
  show ?thesis
  proof (cases x)
    case (Inl e)
    with pf have "main w args = (Inl e, evs0)" by (simp add: main_unfold)
    with o pf Inl show ?thesis by simp
  next
    case (Inr jobs)
    obtain files outfiles where j: "jobs = (files, outfiles)" by (cases jobs)
    from parse_files_sound[of w "arg_input args" "arg_output args" "arg_format args" "[]"
        files outfiles] pf Inr j
    have len: "length files = length outfiles"
      and op: "\<forall>f \<in> set files. lower (arg_format args) = ''native'' \<longrightarrow>
                 Open w (str_path f) \<noteq> None"
      by simp_all
    show ?thesis
    proof (cases "bands_out_of args")
      case (Inl e)
      with pf Inr j have "main w args = (Inl e, evs0)" by (simp add: main_unfold)
      with o Inl show ?thesis by simp
    next
      case b: (Inr bands_out)
      show ?thesis
      proof (cases files)
        case Nil
        with pf Inr j b have "main w args = (Inr (), evs0)" by (simp add: main_unfold)
        with o pf Inr j Nil show ?thesis by simp
      next
        case (Cons f fs)
        with len obtain g gs where og: "outfiles = g # gs" by (cases outfiles) auto
        from main_body_unrecognised[OF assms, of w bands_out f g evs0] obtain e where
          mb: "main_body w bands_out args (f, g) evs0 = (Inl e, evs0 @ [Opened (str_path f)])"
          and ke: "\<not> truthy (arg_range args) \<and>
            (lower (arg_format args) = ''native'' \<longrightarrow> Open w (str_path f) \<noteq> None) \<longrightarrow>
              e = KeyError ''BITRANGE'' (arg_dtype args)"
          by blast
        from pf Inr j b Cons og mb have m: "main w args = (Inl e, evs0 @ [Opened (str_path f)])"
          by (simp add: main_unfold)
        from op Cons have "lower (arg_format args) = ''native'' \<longrightarrow> Open w (str_path f) \<noteq> None"
          by simp
        with ke have "\<not> truthy (arg_range args) \<longrightarrow> e = KeyError ''BITRANGE'' (arg_dtype args)"
          by simp
        with m o show ?thesis by simp
      qed
    qed
  qed
qed

text \<open>The sample directory with the type name \<^verbatim>\<open>Foo\<close> and no range.\<close>

theorem main_unrecognised_dtype_witness:
  "lower ''Foo'' \<noteq> ''native'' \<and> ''Foo'' \<notin> set type_names \<and>
   main sample (sample_args\<lparr>arg_dtype := ''Foo''\<rparr>) =
     (Inl (KeyError ''BITRANGE'' ''Foo''),
      [Opened ''in/a.tif'', Opened ''in/sub/b.png'', Opened ''in/a.tif'']) \<and>
   filter is_Translated (snd (main sample (sample_args\<lparr>arg_dtype := ''Foo''\<rparr>))) = []"
proof -
  have d: "arg_dtype (sample_args\<lparr>arg_dtype := ''Foo''\<rparr>) = ''Foo''" by simp
  have l: "lower ''Foo'' \<noteq> ''native''" by code_simp
  have t: "''Foo'' \<notin> set type_names" by code_simp
  have m: "main sample (sample_args\<lparr>arg_dtype := ''Foo''\<rparr>) =
     (Inl (KeyError ''BITRANGE'' ''Foo''),
      [Opened ''in/a.tif'', Opened ''in/sub/b.png'', Opened ''in/a.tif''])"
    by code_simp
  from main_unrecognised_dtype[of "sample_args\<lparr>arg_dtype := ''Foo''\<rparr>" sample] l t
  have "\<forall>e \<in> set (snd (main sample (sample_args\<lparr>arg_dtype := ''Foo''\<rparr>))). \<not> is_Translated e"
    unfolding d by blast
  then have "filter is_Translated (snd (main sample (sample_args\<lparr>arg_dtype := ''Foo''\<rparr>))) = []"
    by (simp add: filter_empty_conv)
  with l t m show ?thesis by simp
qed

text \<open>
  Claim C7 as it was stated fails in three ways: with an explicit range the failure is a
  lookup in the type table, not in the range table; with an empty input directory
  nothing fails; and \<^verbatim>\<open>Native\<close>, which is not one of the eight names, is resolved from
  the dataset and the run succeeds.
\<close>

theorem main_unrecognised_dtype_counterexample:
  "''Foo'' \<notin> set type_names \<and> ''Native'' \<notin> set type_names \<and>
   main sample (sample_args\<lparr>arg_dtype := ''Foo'', arg_range := Some [0, 1]\<rparr>) =
     (Inl (KeyError ''TYPE_DICT'' ''Foo''),
      [Opened ''in/a.tif'', Opened ''in/sub/b.png'', Opened ''in/a.tif'']) \<and>
   main sample (sample_args\<lparr>arg_input := Some ''empty'', arg_dtype := ''Foo''\<rparr>) = (Inr (), []) \<and>
   fst (main sample sample_args) = Inr () \<and> arg_dtype sample_args = ''Native''"
  by code_simp

text \<open>
  Claim C1, evaluated on the sample directory, which holds a GeoTIFF and a PNG, with
  format and type left native. Each translate call is listed with its destination, the
  driver description of its own source dataset, and the format it was given. The first
  pass assigns \<^verbatim>\<open>args.format\<close>, so the second pass no longer finds it native: the PNG
  is translated with the format of the GeoTIFF.
\<close>
theorem main_native_format_mixed_directory:
  "arg_format sample_args = ''Native'' \<and>
   fst (main sample sample_args) = Inr () \<and>
   translate_calls (snd (main sample sample_args)) =
     [(''out/a_converted.tif'', ''GTiff'', ''GTiff''),
      (''out/b_converted.png'', ''PNG'', ''GTiff'')]"
  by code_simp

end
